theory Spec2Isabelle
  imports Complex_Main
begin

section \<open>Python and pandas values\<close>

text \<open>
  The program is one Python script, \<^verbatim>\<open>popular_names_app.py\<close>: the function
  \<^verbatim>\<open>load_name_data\<close> (lines 11-29) reads a ZIP archive into one pandas table and adds the
  column \<^verbatim>\<open>pct\<close>; the script then adds the columns \<^verbatim>\<open>total_births\<close> and \<^verbatim>\<open>prop\<close>
  (lines 35-36), filters the table (lines 64-65) and reports the year of the largest count
  (lines 104-107).

  An exception that leaves the function is a value here: a function that can raise returns
  \<open>py_error + 'a\<close>, with \<open>Inl\<close> for the exception. No exception is caught anywhere in the
  script. \<open>KeyError_or_ValueError\<close> is the exception of the lookup of lines 104-105 when
  no count is there to look up: which of the two it is depends on the version of pandas
  (the repository names none), and nothing below depends on it.
\<close>

datatype py_error = ValueError | ParserError | EmptyDataError | TypeError | KeyError
  | AttributeError | KeyError_or_ValueError

text \<open>
  A float of a pandas column. A finite float is represented by the rational number it
  stands for: rounding is not modelled, the special values are. \<open>fdiv\<close> is the division of
  floats (a division by zero gives an infinity, or \<open>NaN\<close> for \<open>0 / 0\<close>, and raises nothing),
  \<open>fadd\<close> their addition.
\<close>

datatype pyfloat = Fin rat | PosInf | NegInf | NaN

fun fdiv :: "pyfloat \<Rightarrow> pyfloat \<Rightarrow> pyfloat" where
  "fdiv NaN _ = NaN"
| "fdiv _ NaN = NaN"
| "fdiv (Fin a) (Fin b) =
     (if b = 0 then (if a = 0 then NaN else if 0 < a then PosInf else NegInf)
      else Fin (a / b))"
| "fdiv (Fin a) _ = Fin 0"
| "fdiv PosInf (Fin b) = (if b < 0 then NegInf else PosInf)"
| "fdiv NegInf (Fin b) = (if b < 0 then PosInf else NegInf)"
| "fdiv _ _ = NaN"




text \<open>
  A value of the \<^verbatim>\<open>count\<close> column: an integer, a missing value (pandas' \<open>NaN\<close>), or a
  token the reader kept as text. The dtype of the column follows from its values: text
  anywhere makes it \<open>Object\<close>, otherwise a missing value makes it \<open>Float64\<close>, otherwise it
  is \<open>Int64\<close>.
\<close>

datatype cell = CInt int | CNaN | CStr string

datatype dtype = Int64 | Float64 | Object

fun is_text :: "cell \<Rightarrow> bool" where
  "is_text (CStr _) = True"
| "is_text _ = False"

definition count_dtype :: "cell list \<Rightarrow> dtype" where
  "count_dtype cs =
     (if list_ex is_text cs then Object
      else if list_ex (\<lambda>c. c = CNaN) cs then Float64
      else Int64)"

text \<open>A sum of 64-bit integers wraps around: \<open>wrap64\<close> is the signed 64-bit value of an integer.\<close>

definition wrap64 :: "int \<Rightarrow> int" where
  "wrap64 x = (x + 2 ^ 63) mod 2 ^ 64 - 2 ^ 63"

section \<open>Strings\<close>

text \<open>
  A character is a code point below 256 (ASCII and Latin-1): a Python string of such
  code points is the list of them. Code points from 256 on are not in the type.
\<close>

definition is_digit :: "char \<Rightarrow> bool" where
  "is_digit c = (48 \<le> (of_char c :: nat) \<and> (of_char c :: nat) \<le> 57)"

definition digit_val :: "char \<Rightarrow> nat" where
  "digit_val c = of_char c - 48"

definition digits_val :: "string \<Rightarrow> nat" where
  "digits_val ds = foldl (\<lambda>acc c. 10 * acc + digit_val c) 0 ds"

text \<open>\<^verbatim>\<open>file.endswith('.txt')\<close> and the slice \<^verbatim>\<open>file[3:7]\<close> (shorter when the name is).\<close>

definition endswith :: "string \<Rightarrow> string \<Rightarrow> bool" where
  "endswith s suf = (length suf \<le> length s \<and> drop (length s - length suf) s = suf)"

definition slice :: "nat \<Rightarrow> nat \<Rightarrow> string \<Rightarrow> string" where
  "slice i j s = take (j - i) (drop i s)"

text \<open>
  Python's \<^verbatim>\<open>int(s)\<close> on a string, base 10: white space around the number is dropped, one
  sign is allowed, and the digits may be separated by single underscores. \<open>None\<close> stands
  for the \<^verbatim>\<open>ValueError\<close> that \<^verbatim>\<open>int\<close> raises. The white space that \<^verbatim>\<open>int\<close> drops
  is the tab to the carriage return (9 to 13), the space (32) and, of the code points from
  128 on, the next-line character (133) and the no-break space (160); the separators 28
  to 31 are not dropped. Below 256 the only digits are \<^verbatim>\<open>0\<close> to \<^verbatim>\<open>9\<close>.
\<close>

definition py_space :: "char \<Rightarrow> bool" where
  "py_space c = ((9 \<le> (of_char c :: nat) \<and> (of_char c :: nat) \<le> 13)
               \<or> (of_char c :: nat) = 32 \<or> (of_char c :: nat) = 133
               \<or> (of_char c :: nat) = 160)"

definition py_strip :: "string \<Rightarrow> string" where
  "py_strip s = rev (dropWhile py_space (rev (dropWhile py_space s)))"

fun py_digitpart :: "string \<Rightarrow> string option" where
  "py_digitpart [] = None"
| "py_digitpart [c] = (if is_digit c then Some [c] else None)"
| "py_digitpart (c # d # cs) =
     (if \<not> is_digit c then None
      else if d = CHR ''_'' then map_option ((#) c) (py_digitpart cs)
      else map_option ((#) c) (py_digitpart (d # cs)))"

definition py_int :: "string \<Rightarrow> int option" where
  "py_int s =
     (case py_strip s of
        [] \<Rightarrow> None
      | c # cs \<Rightarrow>
          if c = CHR ''-'' then map_option (\<lambda>ds. - int (digits_val ds)) (py_digitpart cs)
          else if c = CHR ''+'' then map_option (\<lambda>ds. int (digits_val ds)) (py_digitpart cs)
          else map_option (\<lambda>ds. int (digits_val ds)) (py_digitpart (c # cs)))"

text \<open>
  \<^verbatim>\<open>str.lower()\<close>: the letters \<^verbatim>\<open>A\<close> to \<^verbatim>\<open>Z\<close> and, among the code points from 128
  on, the capital letters 192 to 222 (215, the multiplication sign, is none) go to the
  letter 32 code points further; every other character stays.
\<close>

definition lower_char :: "char \<Rightarrow> char" where
  "lower_char c =
     (case map_of (zip ''ABCDEFGHIJKLMNOPQRSTUVWXYZ'' ''abcdefghijklmnopqrstuvwxyz'') c of
        Some l \<Rightarrow> l
      | None \<Rightarrow>
          if 192 \<le> (of_char c :: nat) \<and> (of_char c :: nat) \<le> 222 \<and> (of_char c :: nat) \<noteq> 215
          then char_of ((of_char c :: nat) + 32)
          else c)"

definition lower :: "string \<Rightarrow> string" where
  "lower s = map lower_char s"

section \<open>The CSV reader\<close>

text \<open>
  \<^verbatim>\<open>pd.read_csv(f, header=None)\<close> is library code. Its tokenizer (line ends, quotes,
  blank lines) is not modelled: the content of an archive entry is given as the records
  the tokenizer yields, each record the list of its comma-separated fields. What the reader
  does with the records is modelled:
  \<^item> a file with no record raises \<^verbatim>\<open>EmptyDataError\<close>;
  \<^item> the first record fixes the number of columns; a later record with more fields raises
    \<^verbatim>\<open>ParserError\<close>, one with fewer fields is filled up with empty fields;
  \<^item> a field that is one of the reader's default NA markers (the empty field among them)
    is a missing value;
  \<^item> a column in which every field is an integer literal or missing is a numeric column;
    the integer literal is the one of the reader: white space, one sign, decimal digits,
    white space, with a value in the signed 64-bit range.
  This is the reader on the files the program is written for: names and sexes that are
  text, counts that are integers. The reader's other conversions are not modelled: a
  field it would take as a floating-point or boolean literal, or as an integer from
  \<open>2 ^ 63\<close> on, is text here, the fields of the name and sex columns are text even when
  they are numerals, and an integer of a column with a missing value is not rounded to a
  float. The theorems about the cells of a frame are stated for the fields below that the
  reader of pandas too keeps as text (\<open>text_token\<close>) or reads as a 64-bit integer.
\<close>

definition na_values :: "string list" where
  "na_values =
     ['''', ''#N/A'', ''#N/A N/A'', ''#NA'', ''-1.#IND'', ''-1.#QNAN'', ''-NaN'', ''-nan'',
      ''1.#IND'', ''1.#QNAN'', ''<NA>'', ''N/A'', ''NA'', ''NULL'', ''NaN'', ''None'',
      ''n/a'', ''nan'', ''null'']"

definition is_na :: "string \<Rightarrow> bool" where
  "is_na tok = (tok \<in> set na_values)"

definition c_space :: "char \<Rightarrow> bool" where
  "c_space c = ((of_char c :: nat) = 32 \<or> (9 \<le> (of_char c :: nat) \<and> (of_char c :: nat) \<le> 13))"

definition pd_int :: "string \<Rightarrow> int option" where
  "pd_int tok =
     (let p = dropWhile c_space tok;
          neg = (p \<noteq> [] \<and> hd p = CHR ''-'');
          q = (if p \<noteq> [] \<and> (hd p = CHR ''-'' \<or> hd p = CHR ''+'') then tl p else p);
          ds = takeWhile is_digit q;
          rest = dropWhile c_space (dropWhile is_digit q);
          v = (if neg then - int (digits_val ds) else int (digits_val ds))
      in if ds = [] \<or> rest \<noteq> [] then None
         else if - (2 ^ 63) \<le> v \<and> v < 2 ^ 63 then Some v
         else None)"

definition pad :: "nat \<Rightarrow> string list \<Rightarrow> string list" where
  "pad w r = r @ replicate (w - length r) ''''"

definition read_csv :: "string list list \<Rightarrow> py_error + string list list" where
  "read_csv recs =
     (case recs of
        [] \<Rightarrow> Inl EmptyDataError
      | first # rest \<Rightarrow>
          if list_ex (\<lambda>r. length first < length r) rest then Inl ParserError
          else Inr (map (pad (length first)) recs))"

definition na_filter :: "string \<Rightarrow> string option" where
  "na_filter tok = (if is_na tok then None else Some tok)"

definition infer_count :: "string list \<Rightarrow> cell list" where
  "infer_count toks =
     (if list_all (\<lambda>t. is_na t \<or> pd_int t \<noteq> None) toks
      then map (\<lambda>t. if is_na t then CNaN else case pd_int t of Some v \<Rightarrow> CInt v | None \<Rightarrow> CNaN) toks
      else map (\<lambda>t. if is_na t then CNaN else CStr t) toks)"

section \<open>The table\<close>

text \<open>
  A row of the table after line 25 (\<open>raw_row\<close>), after line 28 (\<open>pct_row\<close>) and after line
  36 (\<open>full_row\<close>; its field \<open>prop'\<close> is the column \<^verbatim>\<open>prop\<close>). A missing name or sex
  is \<open>None\<close>. The table is the list of its rows in index order;
  \<^verbatim>\<open>ignore_index=True\<close> numbers them 0, 1, ... so a row's label is its position.
\<close>

record raw_row =
  name :: "string option"
  sex :: "string option"
  count :: cell
  year :: int

record pct_row = raw_row +
  pct :: pyfloat

record full_row = pct_row +
  total_births :: pyfloat
  prop' :: pyfloat

text \<open>
  Line 22, \<^verbatim>\<open>df.columns = ['name', 'sex', 'count']\<close>, raises \<^verbatim>\<open>ValueError\<close> unless the
  frame has three columns. The rows come out of \<open>read_csv\<close> with the width of the first
  (a frame with no row does not come out of it).
\<close>

definition set_columns :: "string list list \<Rightarrow> py_error + (string option \<times> string option \<times> cell) list" where
  "set_columns frame =
     (case frame of
        [] \<Rightarrow> Inl ValueError
      | first # _ \<Rightarrow>
          if length first \<noteq> 3 then Inl ValueError
          else Inr (zip (map (\<lambda>r. na_filter (r ! 0)) frame)
                     (zip (map (\<lambda>r. na_filter (r ! 1)) frame)
                          (infer_count (map (\<lambda>r. r ! 2) frame)))))"

definition with_year :: "int \<Rightarrow> string option \<times> string option \<times> cell \<Rightarrow> raw_row" where
  "with_year y t = (case t of (n, s, c) \<Rightarrow> \<lparr>name = n, sex = s, count = c, year = y\<rparr>)"

section \<open>load_name_data\<close>

text \<open>
  The archive is the list of its entries in the order of \<^verbatim>\<open>z.namelist()\<close>, each a name
  and a content. \<^verbatim>\<open>z.open(file)\<close> opens by name: of two entries with one name it opens
  the later one.
\<close>

type_synonym archive = "(string \<times> string list list) list"

definition namelist :: "archive \<Rightarrow> string list" where
  "namelist z = map fst z"

definition zip_open :: "archive \<Rightarrow> string \<Rightarrow> string list list option" where
  "zip_open z file = map_of (rev z) file"

text \<open>Line 18: \<^verbatim>\<open>files = [file for file in z.namelist() if file.endswith('.txt')]\<close>.\<close>

definition files :: "archive \<Rightarrow> string list" where
  "files z = filter (\<lambda>file. endswith file ''.txt'') (namelist z)"

text \<open>Lines 20-23, the body of the loop up to the frame it appends.\<close>

definition read_entry :: "archive \<Rightarrow> string \<Rightarrow> py_error + raw_row list" where
  "read_entry z file =
     (case zip_open z file of
        None \<Rightarrow> Inl KeyError
      | Some recs \<Rightarrow>
          (case read_csv recs of
             Inl e \<Rightarrow> Inl e
           | Inr frame \<Rightarrow>
               (case set_columns frame of
                  Inl e \<Rightarrow> Inl e
                | Inr df \<Rightarrow>
                    (case py_int (slice 3 7 file) of
                       None \<Rightarrow> Inl ValueError
                     | Some y \<Rightarrow> Inr (map (with_year y) df)))))"

text \<open>Lines 19-24, the loop over \<open>files\<close> with the list \<open>dfs\<close> it appends to.\<close>

fun load_loop :: "archive \<Rightarrow> string list \<Rightarrow> raw_row list list \<Rightarrow> py_error + raw_row list list" where
  "load_loop z [] dfs = Inr dfs"
| "load_loop z (file # rest) dfs =
     (case read_entry z file of
        Inl e \<Rightarrow> Inl e
      | Inr df \<Rightarrow> load_loop z rest (dfs @ [df]))"

text \<open>
  Line 25, \<^verbatim>\<open>pd.concat(dfs, ignore_index=True)\<close>: it raises \<^verbatim>\<open>ValueError\<close> on an empty
  list. \<open>unified_table\<close> is the variable \<^verbatim>\<open>data\<close> after line 25.
\<close>

definition pd_concat :: "raw_row list list \<Rightarrow> py_error + raw_row list" where
  "pd_concat dfs = (if dfs = [] then Inl ValueError else Inr (concat dfs))"

definition unified_table :: "archive \<Rightarrow> py_error + raw_row list" where
  "unified_table z =
     (case load_loop z (files z) [] of
        Inl e \<Rightarrow> Inl e
      | Inr dfs \<Rightarrow> pd_concat dfs)"

text \<open>
  \<^verbatim>\<open>data.groupby(['year', 'sex'])['count'].transform('sum')\<close>: for every row the sum of
  the counts of its group. Missing counts are left out of the sum; a row whose sex is
  missing belongs to no group and gets \<open>NaN\<close>. In an \<open>Int64\<close> column the sum is a 64-bit
  sum. On a column with text the line they stand in raises \<^verbatim>\<open>TypeError\<close> (in the sum or
  in the division that follows).
\<close>

definition group_counts :: "('a raw_row_scheme) list \<Rightarrow> int \<Rightarrow> string \<Rightarrow> int list" where
  "group_counts data y s =
     concat (map (\<lambda>r. case count r of CInt c \<Rightarrow> [c] | _ \<Rightarrow> [])
                 (filter (\<lambda>r. year r = y \<and> sex r = Some s) data))"

definition group_sum :: "dtype \<Rightarrow> int list \<Rightarrow> int" where
  "group_sum dt cs = (if dt = Int64 then wrap64 (sum_list cs) else sum_list cs)"

definition transform_sum :: "('a raw_row_scheme) list \<Rightarrow> py_error + pyfloat list" where
  "transform_sum data =
     (let dt = count_dtype (map count data) in
      if dt = Object then Inl TypeError
      else Inr (map (\<lambda>r. case sex r of
                           None \<Rightarrow> NaN
                         | Some s \<Rightarrow> Fin (of_int (group_sum dt (group_counts data (year r) s))))
                    data))"

text \<open>The division of the count column by a column of floats, row by row.\<close>

fun truediv1 :: "cell \<Rightarrow> pyfloat \<Rightarrow> py_error + pyfloat" where
  "truediv1 (CInt c) t = Inr (fdiv (Fin (of_int c)) t)"
| "truediv1 CNaN t = Inr (fdiv NaN t)"
| "truediv1 (CStr s) t = Inl TypeError"

fun truediv :: "cell list \<Rightarrow> pyfloat list \<Rightarrow> py_error + pyfloat list" where
  "truediv (c # cs) (t # ts) =
     (case truediv1 c t of
        Inl e \<Rightarrow> Inl e
      | Inr q \<Rightarrow> (case truediv cs ts of Inl e \<Rightarrow> Inl e | Inr qs \<Rightarrow> Inr (q # qs)))"
| "truediv _ _ = Inr []"

text \<open>Line 28: \<^verbatim>\<open>data['pct'] = data['count'] / data.groupby(...)['count'].transform('sum')\<close>.\<close>

definition add_pct :: "raw_row list \<Rightarrow> py_error + pct_row list" where
  "add_pct data =
     (case transform_sum data of
        Inl e \<Rightarrow> Inl e
      | Inr totals \<Rightarrow>
          (case truediv (map count data) totals of
             Inl e \<Rightarrow> Inl e
           | Inr ps \<Rightarrow>
               Inr (map2 (\<lambda>r p. \<lparr>name = name r, sex = sex r, count = count r, year = year r,
                                  pct = p\<rparr>) data ps)))"

definition load_name_data :: "archive \<Rightarrow> py_error + pct_row list" where
  "load_name_data z =
     (case unified_table z of
        Inl e \<Rightarrow> Inl e
      | Inr data \<Rightarrow> add_pct data)"

section \<open>The script after the loader\<close>

text \<open>
  Lines 35-36: \<^verbatim>\<open>df['total_births'] = df.groupby(['year', 'sex'])['count'].transform('sum')\<close>
  and \<^verbatim>\<open>df['prop'] = df['count'] / df['total_births']\<close>.
\<close>

definition add_total_births_prop :: "pct_row list \<Rightarrow> py_error + full_row list" where
  "add_total_births_prop df =
     (case transform_sum df of
        Inl e \<Rightarrow> Inl e
      | Inr totals \<Rightarrow>
          (case truediv (map count df) totals of
             Inl e \<Rightarrow> Inl e
           | Inr ps \<Rightarrow>
               Inr (map2 (\<lambda>r (t, p). \<lparr>name = name r, sex = sex r, count = count r, year = year r,
                                       pct = pct r, total_births = t, prop' = p\<rparr>)
                         df (zip totals ps))))"

text \<open>The table \<^verbatim>\<open>df\<close> the rest of the script reads, from the archive.\<close>

definition enriched_table :: "archive \<Rightarrow> py_error + full_row list" where
  "enriched_table z =
     (case load_name_data z of
        Inl e \<Rightarrow> Inl e
      | Inr df \<Rightarrow> add_total_births_prop df)"

text \<open>
  Lines 64-65: the rows whose year lies between the two ends of \<^verbatim>\<open>year_range\<close>, both
  included, and whose name in lower case is \<^verbatim>\<open>name_of_interest\<close> in lower case. The
  lower case of a missing name is missing, and equals no string. The two inputs are free
  parameters here, as the values of the widgets are. The accessor \<^verbatim>\<open>.str\<close> is the one
  of a column of text: on a name column that holds no text at all it raises
  \<^verbatim>\<open>AttributeError\<close>. Here that is the table in which every name is missing; a
  column of numerals, which the reader of pandas takes as numbers, is text in this model,
  so what is proved of a filter that returns is proved for tables with a name that is
  \<open>text_token\<close>.
\<close>

definition between :: "int \<Rightarrow> int \<Rightarrow> int \<Rightarrow> bool" where
  "between x lo hi = (lo \<le> x \<and> x \<le> hi)"

definition name_matches :: "string option \<Rightarrow> string \<Rightarrow> bool" where
  "name_matches n q = (case n of None \<Rightarrow> False | Some s \<Rightarrow> lower s = lower q)"

definition filtered_data :: "('a raw_row_scheme) list \<Rightarrow> int \<times> int \<Rightarrow> string \<Rightarrow> py_error + ('a raw_row_scheme) list" where
  "filtered_data df year_range name_of_interest =
     (if df \<noteq> [] \<and> list_all (\<lambda>r. name r = None) df then Inl AttributeError
      else Inr (filter (\<lambda>r. between (year r) (fst year_range) (snd year_range)
                            \<and> name_matches (name r) name_of_interest) df))"

text \<open>
  Lines 104-105: \<^verbatim>\<open>filtered_data.loc[filtered_data['count'].idxmax()]['year']\<close>, run
  only when the filtered table is not empty (\<open>None\<close> is the warning of line 109).
  \<^verbatim>\<open>idxmax\<close> gives the label of the first row that holds the largest count, missing counts
  left out; the labels of a filtered table are still distinct, so \<^verbatim>\<open>.loc\<close> finds that one
  row. When every count is missing there is no such label and the lookup raises
  (\<^verbatim>\<open>KeyError\<close> in \<^verbatim>\<open>.loc\<close> or \<^verbatim>\<open>ValueError\<close> in \<^verbatim>\<open>idxmax\<close>, by the version of
  pandas).
\<close>

fun idxmax :: "cell list \<Rightarrow> (nat \<times> int) option" where
  "idxmax [] = None"
| "idxmax (CInt c # cs) =
     (case idxmax cs of
        None \<Rightarrow> Some (0, c)
      | Some (i, m) \<Rightarrow> if m \<le> c then Some (0, c) else Some (Suc i, m))"
| "idxmax (_ # cs) = map_option (\<lambda>(i, m). (Suc i, m)) (idxmax cs)"

definition most_popular_year :: "('a raw_row_scheme) list \<Rightarrow> (py_error + int) option" where
  "most_popular_year fd =
     (if fd = [] then None
      else Some (case idxmax (map count fd) of
                   None \<Rightarrow> Inl KeyError_or_ValueError
                 | Some (i, m) \<Rightarrow> Inr (year (fd ! i))))"

section \<open>Notions of the specification\<close>

text \<open>
  The per-year record-file convention in the specification's words: a fixed prefix, a
  4-digit year, a fixed suffix. The specification's example is \<^verbatim>\<open>yob<YYYY>.txt\<close>.
\<close>

definition record_file_name :: "string \<Rightarrow> bool" where
  "record_file_name file =
     (length file = 11 \<and> take 3 file = ''yob'' \<and> list_all is_digit (slice 3 7 file)
      \<and> drop 7 file = ''.txt'')"

text \<open>
  The rows of the group of a year and a sex, and the shape a record must have for the
  reader to take it.
\<close>

definition in_group :: "int \<Rightarrow> string \<Rightarrow> 'a raw_row_scheme \<Rightarrow> bool" where
  "in_group y s r = (year r = y \<and> sex r = Some s)"

definition bad_shape :: "string list list \<Rightarrow> bool" where
  "bad_shape recs = (recs = [] \<or> length (hd recs) \<noteq> 3 \<or> list_ex (\<lambda>r. 3 < length r) (tl recs))"

text \<open>
  A field that no reader of numbers, truth values or missing values can take for one of
  these, so that it is text in every frame: it holds a letter other than \<^verbatim>\<open>e\<close> and
  \<^verbatim>\<open>j\<close> (the letters of a number), and without the white space around it, and in lower
  case, it is no NA marker and no spelling of infinity, of not-a-number or of a truth
  value.
\<close>

definition plain_letter :: "char \<Rightarrow> bool" where
  "plain_letter c = (c \<in> set ''abcdfghiklmnopqrstuvwxyzABCDFGHIKLMNOPQRSTUVWXYZ'')"

definition c_strip :: "string \<Rightarrow> string" where
  "c_strip s = rev (dropWhile c_space (rev (dropWhile c_space s)))"

definition special_words :: "string list" where
  "special_words =
     [''inf'', ''+inf'', ''-inf'', ''infinity'', ''+infinity'', ''-infinity'',
      ''nan'', ''+nan'', ''-nan'', ''true'', ''false'']"

definition text_token :: "string \<Rightarrow> bool" where
  "text_token tok =
     (list_ex plain_letter tok \<and> \<not> is_na tok \<and> \<not> is_na (c_strip tok)
      \<and> lower (c_strip tok) \<notin> set (special_words @ map lower na_values))"

definition text_name :: "'a raw_row_scheme \<Rightarrow> bool" where
  "text_name r = (case name r of None \<Rightarrow> False | Some n \<Rightarrow> text_token n)"

text \<open>
  A row as the specification wants it: exactly three fields, the third a non-negative
  integer in decimal digits.
\<close>

definition nonneg_int_field :: "string \<Rightarrow> bool" where
  "nonneg_int_field tok = (tok \<noteq> [] \<and> list_all is_digit tok)"

definition spec_row_ok :: "string list \<Rightarrow> bool" where
  "spec_row_ok r = (length r = 3 \<and> nonneg_int_field (r ! 2))"

text \<open>
  Auxiliary functions of the proofs: the float of a numeric cell, the total of the group of
  a row and the quotient of the two, which is what lines 28 and 36 compute for the row.
\<close>

fun to_float :: "cell \<Rightarrow> pyfloat" where
  "to_float (CInt c) = Fin (of_int c)"
| "to_float _ = NaN"

definition total_of :: "('a raw_row_scheme) list \<Rightarrow> 'b raw_row_scheme \<Rightarrow> pyfloat" where
  "total_of data r =
     (case sex r of
        None \<Rightarrow> NaN
      | Some s \<Rightarrow> Fin (of_int (group_sum (count_dtype (map count data))
                                          (group_counts data (year r) s))))"

definition pct_of :: "('a raw_row_scheme) list \<Rightarrow> 'b raw_row_scheme \<Rightarrow> pyfloat" where
  "pct_of data r = fdiv (to_float (count r)) (total_of data r)"

text \<open>A proportion as the specification wants it: a number of the closed interval from 0 to 1.\<close>

fun in_unit_interval :: "pyfloat \<Rightarrow> bool" where
  "in_unit_interval (Fin q) = (0 \<le> q \<and> q \<le> 1)"
| "in_unit_interval _ = False"

section \<open>Evaluation on concrete archives\<close>

text \<open>The definitions that the simplifier unfolds to run the loader on a concrete archive.\<close>

lemmas eval_defs = unified_table_def files_def namelist_def endswith_def read_entry_def zip_open_def
  read_csv_def pad_def set_columns_def na_filter_def is_na_def na_values_def infer_count_def
  pd_int_def c_space_def is_digit_def digits_val_def digit_val_def py_int_def py_strip_def
  py_space_def slice_def with_year_def pd_concat_def

lemmas agg_defs = load_name_data_def add_pct_def transform_sum_def count_dtype_def
  group_counts_def group_sum_def wrap64_def


lemmas filter_eval = filtered_data_def between_def name_matches_def lower_def lower_char_def
  most_popular_year_def

lemmas token_eval = text_name_def text_token_def plain_letter_def c_strip_def c_space_def
  special_words_def is_na_def na_values_def lower_def lower_char_def

section \<open>The loop of the loader\<close>

text \<open>
  The loop returns the frames of the entries in the order of \<open>files\<close> when every entry can
  be read, and an exception as soon as one entry raises.
\<close>

lemma load_loop_Inr:
  "load_loop z fs dfs = Inr res \<longleftrightarrow> (\<exists>ds. map (read_entry z) fs = map Inr ds \<and> res = dfs @ ds)"
proof (induction fs arbitrary: dfs)
  case Nil
  then show ?case by auto
next
  case (Cons f fs)
  show ?case
  proof (cases "read_entry z f")
    case (Inl e)
    then show ?thesis by (auto simp: map_eq_Cons_conv)
  next
    case (Inr df)
    then show ?thesis
      by (auto simp: Cons.IH map_eq_Cons_conv)
  qed
qed

lemma load_loop_raises:
  "f \<in> set fs \<Longrightarrow> read_entry z f = Inl e \<Longrightarrow> \<exists>e'. load_loop z fs dfs = Inl e'"
proof (induction fs arbitrary: dfs)
  case Nil
  then show ?case by simp
next
  case (Cons g fs)
  then show ?case by (cases "read_entry z g") auto
qed

lemma unified_table_raises:
  assumes "f \<in> set (files z)" "read_entry z f = Inl e"
  shows "\<exists>e'. unified_table z = Inl e'"
  using load_loop_raises [OF assms, of "[]"] by (auto simp: unified_table_def)

lemma load_name_data_raises:
  assumes "unified_table z = Inl e"
  shows "load_name_data z = Inl e"
  using assms by (simp add: load_name_data_def)

lemma unified_table_Inr:
  "unified_table z = Inr t \<longleftrightarrow>
     (\<exists>ds. ds \<noteq> [] \<and> map (read_entry z) (files z) = map Inr ds \<and> t = concat ds)"
proof (cases "load_loop z (files z) []")
  case (Inl e)
  then have "\<not> (\<exists>ds. map (read_entry z) (files z) = map Inr ds)"
    using load_loop_Inr [of z "files z" "[]"] by auto
  with Inl show ?thesis by (auto simp: unified_table_def)
next
  case (Inr dfs)
  then show ?thesis
    using load_loop_Inr [of z "files z" "[]" dfs]
    by (auto simp: unified_table_def pd_concat_def inj_map_eq_map [OF inj_Inr])
qed

lemma loader_raises:
  assumes "f \<in> set (files z)" "read_entry z f = Inl e"
  shows "(\<exists>e'. unified_table z = Inl e') \<and> (\<exists>e'. load_name_data z = Inl e')"
proof -
  from unified_table_raises [OF assms] obtain e' where "unified_table z = Inl e'" by blast
  then show ?thesis by (auto simp: load_name_data_raises)
qed

lemma map_of_rev_filter:
  "P k \<Longrightarrow> map_of (rev (filter (\<lambda>e. P (fst e)) z)) k = map_of (rev z) k"
  by (induction z) (auto simp: map_add_def split: option.splits)

section \<open>Which entries the loader reads\<close>

text \<open>
  The outcome of the loop depends on the archive only through the entries it reads; an
  entry whose name does not end in \<^verbatim>\<open>.txt\<close> is not among them.
\<close>

lemma load_loop_cong:
  "(\<And>f. f \<in> set fs \<Longrightarrow> read_entry z f = read_entry z' f)
   \<Longrightarrow> load_loop z fs dfs = load_loop z' fs dfs"
proof (induction fs arbitrary: dfs)
  case Nil
  show ?case by simp
next
  case (Cons g fs)
  have "read_entry z g = read_entry z' g" by (simp add: Cons.prems)
  moreover have "\<And>d. load_loop z fs d = load_loop z' fs d"
    by (rule Cons.IH) (simp add: Cons.prems)
  ultimately show ?case by (simp split: sum.splits)
qed

lemma files_filter:
  "files (filter (\<lambda>e. endswith (fst e) ''.txt'') z) = files z"
  by (induction z) (auto simp: files_def namelist_def)

lemma read_entry_filter:
  assumes "endswith f ''.txt''"
  shows "read_entry (filter (\<lambda>e. endswith (fst e) ''.txt'') z) f = read_entry z f"
  using map_of_rev_filter [of "\<lambda>n. endswith n ''.txt''" f z] assms
  by (simp add: read_entry_def zip_open_def)

lemma unified_table_filter:
  "unified_table (filter (\<lambda>e. endswith (fst e) ''.txt'') z) = unified_table z"
proof -
  have "load_loop (filter (\<lambda>e. endswith (fst e) ''.txt'') z) (files z) []
        = load_loop z (files z) []"
    by (rule load_loop_cong) (simp add: read_entry_filter files_def)
  then show ?thesis by (simp add: unified_table_def files_filter)
qed

lemma read_entry_nonempty: "read_entry z f = Inr rows \<Longrightarrow> rows \<noteq> []"
  by (auto simp: read_entry_def read_csv_def set_columns_def infer_count_def
      split: option.splits sum.splits list.splits if_splits)

lemma files_eq: "files z = filter (\<lambda>f. endswith f ''.txt'') (map fst z)"
  by (simp add: files_def namelist_def)

lemma frames_in_table:
  assumes "map g fs = map Inr ds" "f \<in> set fs"
  shows "\<exists>rows. g f = Inr rows \<and> set rows \<subseteq> set (concat ds)"
  using assms
proof (induction fs arbitrary: ds)
  case Nil
  then show ?case by simp
next
  case (Cons a fs)
  then obtain d ds' where ds: "ds = d # ds'" and a: "g a = Inr d" and rest: "map g fs = map Inr ds'"
    by (cases ds) auto
  show ?case
  proof (cases "f = a")
    case True
    with a ds show ?thesis by auto
  next
    case False
    with Cons.prems have "f \<in> set fs" by simp
    from Cons.IH [OF rest this] ds show ?thesis by auto
  qed
qed

text \<open>
  Claim C2, as stated: the Loader takes exactly the entries whose names follow the per-year
  convention (a fixed prefix, a 4-digit year, a fixed suffix). It does not: line 18 keeps
  every name that ends in \<^verbatim>\<open>.txt\<close>. In the archive below only the first name follows
  the convention; the second has another prefix and the third has no 4-digit year
  (\<^verbatim>\<open>int(' 100')\<close> is 100), yet the rows of all three are in the unified table.
\<close>

theorem record_file_convention_counterexample:
  "unified_table
     [(''yob1999.txt'', [[''Alice'', ''F'', ''100'']]),
      (''abc2000.txt'', [[''Bob'', ''M'', ''50'']]),
      (''yob 100.txt'', [[''Carol'', ''F'', ''7'']])]
   = Inr [\<lparr>name = Some ''Alice'', sex = Some ''F'', count = CInt 100, year = 1999\<rparr>,
          \<lparr>name = Some ''Bob'', sex = Some ''M'', count = CInt 50, year = 2000\<rparr>,
          \<lparr>name = Some ''Carol'', sex = Some ''F'', count = CInt 7, year = 100\<rparr>]
   \<and> record_file_name ''yob1999.txt''
   \<and> \<not> record_file_name ''abc2000.txt''
   \<and> \<not> record_file_name ''yob 100.txt''"
  by (simp add: eval_defs record_file_name_def)

text \<open>
  Claim C2, amended. The Loader reads exactly the archive entries whose names end in
  \<^verbatim>\<open>.txt\<close>, whatever stands before the suffix: the files of line 18 are the names of
  the archive that end in \<^verbatim>\<open>.txt\<close>, in archive order, and the entries with other
  names have no effect on the outcome. Every entry whose name ends in \<^verbatim>\<open>.txt\<close> is
  read: when the Loader returns a table, the table is the concatenation, in archive
  order, of the frames read from these entries, each of these entries gave a frame that
  is not empty, and all rows of that frame are in the table; when reading one of these
  entries raises, the Loader returns no table.
\<close>

theorem loader_reads_txt_entries:
  "files z = filter (\<lambda>f. endswith f ''.txt'') (map fst z)
   \<and> unified_table z = unified_table (filter (\<lambda>e. endswith (fst e) ''.txt'') z)
   \<and> (unified_table z = Inr t \<longrightarrow>
        (\<exists>ds. map (read_entry z) (filter (\<lambda>f. endswith f ''.txt'') (map fst z)) = map Inr ds
              \<and> t = concat ds))
   \<and> (unified_table z = Inr t \<and> f \<in> set (map fst z) \<and> endswith f ''.txt'' \<longrightarrow>
        (\<exists>rows. read_entry z f = Inr rows \<and> rows \<noteq> [] \<and> set rows \<subseteq> set t))
   \<and> (f \<in> set (map fst z) \<and> endswith f ''.txt'' \<and> read_entry z f = Inl e \<longrightarrow>
        (\<exists>e'. unified_table z = Inl e'))"
proof (intro conjI impI)
  show "files z = filter (\<lambda>f. endswith f ''.txt'') (map fst z)" by (rule files_eq)
  show "unified_table z = unified_table (filter (\<lambda>e. endswith (fst e) ''.txt'') z)"
    by (simp add: unified_table_filter)
next
  assume "unified_table z = Inr t"
  then show "\<exists>ds. map (read_entry z) (filter (\<lambda>f. endswith f ''.txt'') (map fst z)) = map Inr ds
              \<and> t = concat ds"
    using unified_table_Inr [of z t] by (auto simp: files_eq)
next
  assume a: "unified_table z = Inr t \<and> f \<in> set (map fst z) \<and> endswith f ''.txt''"
  then obtain ds where ds: "map (read_entry z) (files z) = map Inr ds" and t: "t = concat ds"
    using unified_table_Inr [of z t] by auto
  from a have "f \<in> set (files z)" by (simp add: files_eq)
  from frames_in_table [OF ds this] obtain rows
    where r: "read_entry z f = Inr rows" "set rows \<subseteq> set (concat ds)" by blast
  with t read_entry_nonempty [OF r(1)]
  show "\<exists>rows. read_entry z f = Inr rows \<and> rows \<noteq> [] \<and> set rows \<subseteq> set t" by blast
next
  assume a: "f \<in> set (map fst z) \<and> endswith f ''.txt'' \<and> read_entry z f = Inl e"
  then have "f \<in> set (files z)" by (simp add: files_eq)
  with a show "\<exists>e'. unified_table z = Inl e'"
    using unified_table_raises by blast
qed

text \<open>
  The amended claim C2 on an archive with \<^verbatim>\<open>yob1999.txt\<close>, a PDF and
  \<^verbatim>\<open>abc2000.txt\<close>, a name outside the convention: the frame of \<^verbatim>\<open>abc2000.txt\<close>
  is read and its row is in the table, the table is the concatenation of the frames of
  the two \<^verbatim>\<open>.txt\<close> entries, the PDF changes nothing, and an entry \<^verbatim>\<open>notes.txt\<close>
  that cannot be read makes the Loader fail.
\<close>

theorem loader_reads_txt_entries_witness:
  "unified_table [(''yob1999.txt'', [[''Alice'', ''F'', ''100'']]),
                  (''NationalReadMe.pdf'', [[''text'']]),
                  (''abc2000.txt'', [[''Bob'', ''M'', ''50'']])]
     = Inr [\<lparr>name = Some ''Alice'', sex = Some ''F'', count = CInt 100, year = 1999\<rparr>,
            \<lparr>name = Some ''Bob'', sex = Some ''M'', count = CInt 50, year = 2000\<rparr>]
   \<and> \<not> record_file_name ''abc2000.txt''
   \<and> (\<exists>rows. read_entry [(''yob1999.txt'', [[''Alice'', ''F'', ''100'']]),
                           (''NationalReadMe.pdf'', [[''text'']]),
                           (''abc2000.txt'', [[''Bob'', ''M'', ''50'']])] ''abc2000.txt'' = Inr rows
         \<and> rows \<noteq> []
         \<and> set rows \<subseteq> set [\<lparr>name = Some ''Alice'', sex = Some ''F'', count = CInt 100, year = 1999\<rparr>,
                             \<lparr>name = Some ''Bob'', sex = Some ''M'', count = CInt 50, year = 2000\<rparr>])
   \<and> (\<exists>ds. map (read_entry [(''yob1999.txt'', [[''Alice'', ''F'', ''100'']]),
                                (''NationalReadMe.pdf'', [[''text'']]),
                                (''abc2000.txt'', [[''Bob'', ''M'', ''50'']])])
                  [''yob1999.txt'', ''abc2000.txt''] = map Inr ds
         \<and> [\<lparr>name = Some ''Alice'', sex = Some ''F'', count = CInt 100, year = 1999\<rparr>,
             \<lparr>name = Some ''Bob'', sex = Some ''M'', count = CInt 50, year = 2000\<rparr>] = concat ds)
   \<and> unified_table [(''yob1999.txt'', [[''Alice'', ''F'', ''100'']]),
                  (''NationalReadMe.pdf'', [[''text'']]),
                  (''abc2000.txt'', [[''Bob'', ''M'', ''50'']])]
     = unified_table [(''yob1999.txt'', [[''Alice'', ''F'', ''100'']]),
                      (''abc2000.txt'', [[''Bob'', ''M'', ''50'']])]
   \<and> (\<exists>e. unified_table [(''yob1999.txt'', [[''Alice'', ''F'', ''100'']]),
                           (''notes.txt'', [[''some'', ''text'']])] = Inl e)"
proof -
  let ?z = "[(''yob1999.txt'', [[''Alice'', ''F'', ''100'']]),
             (''NationalReadMe.pdf'', [[''text'']]),
             (''abc2000.txt'', [[''Bob'', ''M'', ''50'']])]"
  let ?t = "[\<lparr>name = Some ''Alice'', sex = Some ''F'', count = CInt 100, year = 1999\<rparr>,
             \<lparr>name = Some ''Bob'', sex = Some ''M'', count = CInt 50, year = 2000\<rparr>]"
  let ?z2 = "[(''yob1999.txt'', [[''Alice'', ''F'', ''100'']]),
              (''notes.txt'', [[''some'', ''text'']])]"
  have t: "unified_table ?z = Inr ?t"
    by (simp add: eval_defs)
  have n: "\<not> record_file_name ''abc2000.txt''"
    by (simp add: record_file_name_def)
  have m: "''abc2000.txt'' \<in> set (map fst ?z) \<and> endswith ''abc2000.txt'' ''.txt''"
    by (simp add: endswith_def)
  have flt: "filter (\<lambda>e. endswith (fst e) ''.txt'') ?z
      = [(''yob1999.txt'', [[''Alice'', ''F'', ''100'']]), (''abc2000.txt'', [[''Bob'', ''M'', ''50'']])]"
    by (simp add: endswith_def)
  have m2: "''notes.txt'' \<in> set (map fst ?z2) \<and> endswith ''notes.txt'' ''.txt''"
    by (simp add: endswith_def)
  have e2: "read_entry ?z2 ''notes.txt'' = Inl ValueError"
    by (simp add: eval_defs)
  from loader_reads_txt_entries [of ?z ?t "''abc2000.txt''"] t m
  have w1: "\<exists>rows. read_entry ?z ''abc2000.txt'' = Inr rows \<and> rows \<noteq> [] \<and> set rows \<subseteq> set ?t"
    by blast
  have fl: "filter (\<lambda>f. endswith f ''.txt'') (map fst ?z) = [''yob1999.txt'', ''abc2000.txt'']"
    by (simp add: endswith_def)
  from loader_reads_txt_entries [of ?z ?t] t
  have "\<exists>ds. map (read_entry ?z) (filter (\<lambda>f. endswith f ''.txt'') (map fst ?z)) = map Inr ds
             \<and> ?t = concat ds"
    by blast
  then have w4: "\<exists>ds. map (read_entry ?z) [''yob1999.txt'', ''abc2000.txt''] = map Inr ds
             \<and> ?t = concat ds"
    by (simp only: fl)
  from loader_reads_txt_entries [of ?z ?t "''abc2000.txt''"]
  have w2: "unified_table ?z = unified_table (filter (\<lambda>e. endswith (fst e) ''.txt'') ?z)"
    by blast
  from loader_reads_txt_entries [of ?z2 _ "''notes.txt''" ValueError] m2 e2
  have w3: "\<exists>e. unified_table ?z2 = Inl e" by blast
  from t n w1 w4 w2 [unfolded flt] w3 show ?thesis by blast
qed

section \<open>What the reader accepts\<close>

text \<open>
  The shape of the records decides whether an entry can be read: no record at all, a
  first record that does not have three fields, or a later record with more than three,
  and the entry raises. Otherwise every record gives one row, short records filled up
  with missing values.
\<close>

lemma length_pad: "length r \<le> w \<Longrightarrow> length (pad w r) = w"
  by (simp add: pad_def)

lemma pad_id: "length r = w \<Longrightarrow> pad w r = r"
  by (simp add: pad_def)

lemma read_csv_empty: "read_csv [] = Inl EmptyDataError"
  by (simp add: read_csv_def)

lemma read_csv_Cons:
  "read_csv (first # rest) =
     (if list_ex (\<lambda>r. length first < length r) rest then Inl ParserError
      else Inr (map (pad (length first)) (first # rest)))"
  by (simp add: read_csv_def)

lemma set_columns_width:
  "length first \<noteq> 3 \<Longrightarrow> set_columns (map (pad (length first)) (first # rest)) = Inl ValueError"
  by (simp add: set_columns_def length_pad)

lemma read_entry_bad_shape:
  assumes "zip_open z f = Some recs" "bad_shape recs"
  shows "read_entry z f = Inl EmptyDataError \<or> read_entry z f = Inl ParserError
         \<or> read_entry z f = Inl ValueError"
proof (cases recs)
  case Nil
  with assms(1) show ?thesis by (simp add: read_entry_def read_csv_empty)
next
  case (Cons first rest)
  show ?thesis
  proof (cases "list_ex (\<lambda>r. length first < length r) rest")
    case True
    with Cons assms(1) show ?thesis by (simp add: read_entry_def read_csv_Cons)
  next
    case False
    have "length first \<noteq> 3"
    proof
      assume "length first = 3"
      with assms(2) Cons False show False by (auto simp: bad_shape_def list_ex_iff)
    qed
    with Cons assms(1) False show ?thesis
      by (simp add: read_entry_def read_csv_Cons set_columns_width del: list.map)
  qed
qed

lemma with_year_zip:
  "map (with_year y) (zip (map f xs) (zip (map g xs) cs))
   = map2 (\<lambda>r c. \<lparr>name = f r, sex = g r, count = c, year = y\<rparr>) xs cs"
proof (induction xs arbitrary: cs)
  case Nil
  show ?case by simp
next
  case (Cons x xs)
  show ?case
  proof (cases cs)
    case Nil
    then show ?thesis by simp
  next
    case (Cons c cs')
    with Cons.IH [of cs'] show ?thesis by (simp add: with_year_def)
  qed
qed

lemma read_entry_good_shape:
  assumes "zip_open z f = Some recs" "\<not> bad_shape recs" "py_int (slice 3 7 f) = Some y"
  shows "read_entry z f =
     Inr (map2 (\<lambda>r c. \<lparr>name = na_filter (pad 3 r ! 0), sex = na_filter (pad 3 r ! 1),
                          count = c, year = y\<rparr>)
               recs (infer_count (map (\<lambda>r. pad 3 r ! 2) recs)))"
proof -
  from assms(2) obtain first rest where recs: "recs = first # rest"
    by (cases recs) (auto simp: bad_shape_def)
  with assms(2) have w: "length first = 3" and
    rest: "\<not> list_ex (\<lambda>r. length first < length r) rest"
    by (auto simp: bad_shape_def)
  have csv: "read_csv recs = Inr (map (pad 3) recs)"
    using rest w by (simp add: recs read_csv_Cons)
  have cols: "set_columns (map (pad 3) recs) =
      Inr (zip (map (\<lambda>r. na_filter (pad 3 r ! 0)) recs)
            (zip (map (\<lambda>r. na_filter (pad 3 r ! 1)) recs)
                 (infer_count (map (\<lambda>r. pad 3 r ! 2) recs))))"
    unfolding recs using w by (simp add: set_columns_def length_pad comp_def)
  show ?thesis
    using assms(1,3) csv cols by (simp add: read_entry_def with_year_zip)
qed

lemma is_na_not_int: "is_na t \<Longrightarrow> pd_int t = None"
  by (auto simp: is_na_def na_values_def pd_int_def c_space_def is_digit_def)

lemma infer_count_ints:
  "map pd_int toks = map Some vs \<Longrightarrow> infer_count toks = map CInt vs"
proof -
  assume a: "map pd_int toks = map Some vs"
  have all: "\<And>t. t \<in> set toks \<Longrightarrow> pd_int t \<noteq> None"
  proof -
    fix t assume "t \<in> set toks"
    then have "pd_int t \<in> set (map Some vs)" using a by (metis image_eqI set_map)
    then show "pd_int t \<noteq> None" by auto
  qed
  then have na: "\<And>t. t \<in> set toks \<Longrightarrow> \<not> is_na t"
    using is_na_not_int by blast
  have "list_all (\<lambda>t. is_na t \<or> pd_int t \<noteq> None) toks"
    using all by (simp add: list_all_iff)
  then have "infer_count toks = map (\<lambda>t. case pd_int t of Some v \<Rightarrow> CInt v | None \<Rightarrow> CNaN) toks"
    using na by (simp add: infer_count_def)
  also have "\<dots> = map (\<lambda>ov. case ov of Some v \<Rightarrow> CInt v | None \<Rightarrow> CNaN) (map pd_int toks)"
    by (simp add: comp_def)
  also have "\<dots> = map CInt vs" by (simp add: a comp_def)
  finally show ?thesis .
qed

lemma map2_cong_left:
  "(\<And>x. x \<in> set xs \<Longrightarrow> f x = g x) \<Longrightarrow> map2 f xs ys = map2 g xs ys"
  by (auto dest: set_zip_leftD)

lemma map2_map_right: "map2 f xs (map h ys) = map2 (\<lambda>x y. f x (h y)) xs ys"
  by (auto simp: zip_map2)

lemma read_entry_int_rows:
  assumes "zip_open z f = Some recs" "\<not> bad_shape recs" "py_int (slice 3 7 f) = Some y"
    and three: "list_all (\<lambda>r. length r = 3) recs"
    and ints: "map pd_int (map (\<lambda>r. r ! 2) recs) = map Some vs"
  shows "read_entry z f =
     Inr (map2 (\<lambda>r v. \<lparr>name = na_filter (r ! 0), sex = na_filter (r ! 1),
                          count = CInt v, year = y\<rparr>) recs vs)"
proof -
  have pad: "\<And>r. r \<in> set recs \<Longrightarrow> pad 3 r = r"
    using three by (simp add: list_all_iff pad_id)
  have "map (\<lambda>r. pad 3 r ! 2) recs = map (\<lambda>r. r ! 2) recs"
    using pad by simp
  then have cnt: "infer_count (map (\<lambda>r. pad 3 r ! 2) recs) = map CInt vs"
    using infer_count_ints [OF ints] by (simp only:)
  have "map2 (\<lambda>r c. \<lparr>name = na_filter (pad 3 r ! 0), sex = na_filter (pad 3 r ! 1),
                          count = c, year = y\<rparr>) recs (map CInt vs)
      = map2 (\<lambda>r c. \<lparr>name = na_filter (r ! 0), sex = na_filter (r ! 1),
                          count = c, year = y\<rparr>) recs (map CInt vs)"
    by (rule map2_cong_left) (simp add: pad)
  then show ?thesis
    using read_entry_good_shape [OF assms(1,2,3)] by (simp add: cnt map2_map_right)
qed

lemma infer_count_na:
  "i < length toks \<Longrightarrow> is_na (toks ! i) \<Longrightarrow> infer_count toks ! i = CNaN"
  by (simp add: infer_count_def)

lemma pad_short_count: "length r < 3 \<Longrightarrow> pad 3 r ! 2 = ''''"
  by (simp add: pad_def nth_append)

lemma pad_short_sex: "length r < 2 \<Longrightarrow> pad 3 r ! 1 = ''''"
  by (simp add: pad_def nth_append)

lemma is_na_empty: "is_na ''''"
  by (simp add: is_na_def na_values_def)

lemma length_infer_count: "length (infer_count toks) = length toks"
  by (simp add: infer_count_def)

lemma text_token_not_na: "text_token t \<Longrightarrow> na_filter t = Some t"
  by (simp add: text_token_def na_filter_def)

lemma pad_nth: "k < length r \<Longrightarrow> pad w r ! k = r ! k"
  by (simp add: pad_def nth_append)

lemma read_entry_rows:
  assumes "zip_open z f = Some recs" "\<not> bad_shape recs" "py_int (slice 3 7 f) = Some y"
  shows "\<exists>rows. read_entry z f = Inr rows \<and> length rows = length recs
           \<and> (\<forall>i<length recs. year (rows ! i) = y
                 \<and> (length (recs ! i) < 3 \<or> is_na (recs ! i ! 2) \<longrightarrow> count (rows ! i) = CNaN)
                 \<and> (length (recs ! i) < 2 \<longrightarrow> sex (rows ! i) = None)
                 \<and> (1 \<le> length (recs ! i) \<and> text_token (recs ! i ! 0) \<longrightarrow>
                      name (rows ! i) = Some (recs ! i ! 0))
                 \<and> (2 \<le> length (recs ! i) \<and> text_token (recs ! i ! 1) \<longrightarrow>
                      sex (rows ! i) = Some (recs ! i ! 1)))"
proof -
  let ?cs = "infer_count (map (\<lambda>r. pad 3 r ! 2) recs)"
  let ?rows = "map2 (\<lambda>r c. \<lparr>name = na_filter (pad 3 r ! 0), sex = na_filter (pad 3 r ! 1),
                          count = c, year = y\<rparr>) recs ?cs"
  have r: "read_entry z f = Inr ?rows" by (rule read_entry_good_shape [OF assms])
  have l: "length ?rows = length recs" by (simp add: length_infer_count)
  have "\<forall>i<length recs. year (?rows ! i) = y
                 \<and> (length (recs ! i) < 3 \<or> is_na (recs ! i ! 2) \<longrightarrow> count (?rows ! i) = CNaN)
                 \<and> (length (recs ! i) < 2 \<longrightarrow> sex (?rows ! i) = None)
                 \<and> (1 \<le> length (recs ! i) \<and> text_token (recs ! i ! 0) \<longrightarrow>
                      name (?rows ! i) = Some (recs ! i ! 0))
                 \<and> (2 \<le> length (recs ! i) \<and> text_token (recs ! i ! 1) \<longrightarrow>
                      sex (?rows ! i) = Some (recs ! i ! 1))"
  proof (intro allI impI)
    fix i assume i: "i < length recs"
    then have row: "?rows ! i = \<lparr>name = na_filter (pad 3 (recs ! i) ! 0),
        sex = na_filter (pad 3 (recs ! i) ! 1), count = ?cs ! i, year = y\<rparr>"
      by (simp add: length_infer_count)
    have c: "length (recs ! i) < 3 \<or> is_na (recs ! i ! 2) \<longrightarrow> ?cs ! i = CNaN"
    proof
      assume a: "length (recs ! i) < 3 \<or> is_na (recs ! i ! 2)"
      have "is_na (pad 3 (recs ! i) ! 2)"
      proof (cases "length (recs ! i) < 3")
        case True
        then show ?thesis by (simp add: pad_short_count is_na_empty)
      next
        case False
        then have "2 < length (recs ! i)" by arith
        then have "pad 3 (recs ! i) ! 2 = recs ! i ! 2" by (rule pad_nth)
        with a False show ?thesis by simp
      qed
      then have "is_na (map (\<lambda>r. pad 3 r ! 2) recs ! i)" using i by simp
      then show "?cs ! i = CNaN" using i by (simp add: infer_count_na)
    qed
    have s: "length (recs ! i) < 2 \<longrightarrow> na_filter (pad 3 (recs ! i) ! 1) = None"
    proof
      assume "length (recs ! i) < 2"
      then have "pad 3 (recs ! i) ! 1 = ''''" by (rule pad_short_sex)
      then show "na_filter (pad 3 (recs ! i) ! 1) = None"
        by (simp only: na_filter_def is_na_empty if_True)
    qed
    have n: "1 \<le> length (recs ! i) \<and> text_token (recs ! i ! 0) \<longrightarrow>
        na_filter (pad 3 (recs ! i) ! 0) = Some (recs ! i ! 0)"
    proof
      assume a: "1 \<le> length (recs ! i) \<and> text_token (recs ! i ! 0)"
      then have "1 \<le> length (recs ! i)" by simp
      then have "0 < length (recs ! i)" by arith
      then have "pad 3 (recs ! i) ! 0 = recs ! i ! 0" by (rule pad_nth)
      with a show "na_filter (pad 3 (recs ! i) ! 0) = Some (recs ! i ! 0)"
        by (simp add: text_token_not_na)
    qed
    have x: "2 \<le> length (recs ! i) \<and> text_token (recs ! i ! 1) \<longrightarrow>
        na_filter (pad 3 (recs ! i) ! 1) = Some (recs ! i ! 1)"
    proof
      assume a: "2 \<le> length (recs ! i) \<and> text_token (recs ! i ! 1)"
      then have "2 \<le> length (recs ! i)" by simp
      then have "1 < length (recs ! i)" by arith
      then have "pad 3 (recs ! i) ! 1 = recs ! i ! 1" by (rule pad_nth)
      with a show "na_filter (pad 3 (recs ! i) ! 1) = Some (recs ! i ! 1)"
        by (simp only: text_token_not_na)
    qed
    from c s n x show "year (?rows ! i) = y
                 \<and> (length (recs ! i) < 3 \<or> is_na (recs ! i ! 2) \<longrightarrow> count (?rows ! i) = CNaN)
                 \<and> (length (recs ! i) < 2 \<longrightarrow> sex (?rows ! i) = None)
                 \<and> (1 \<le> length (recs ! i) \<and> text_token (recs ! i ! 0) \<longrightarrow>
                      name (?rows ! i) = Some (recs ! i ! 0))
                 \<and> (2 \<le> length (recs ! i) \<and> text_token (recs ! i ! 1) \<longrightarrow>
                      sex (?rows ! i) = Some (recs ! i ! 1))"
      by (simp only: row) simp
  qed
  with r l show ?thesis by blast
qed

lemma read_entry_text_int_rows:
  assumes "zip_open z f = Some recs" "\<not> bad_shape recs" "py_int (slice 3 7 f) = Some y"
    and three: "list_all (\<lambda>r. length r = 3 \<and> text_token (r ! 0) \<and> text_token (r ! 1)) recs"
    and ints: "map pd_int (map (\<lambda>r. r ! 2) recs) = map Some vs"
  shows "read_entry z f =
     Inr (map2 (\<lambda>r v. \<lparr>name = Some (r ! 0), sex = Some (r ! 1),
                          count = CInt v, year = y\<rparr>) recs vs)"
proof -
  from three have t3: "list_all (\<lambda>r. length r = 3) recs" by (simp add: list_all_iff)
  have "map2 (\<lambda>r v. \<lparr>name = na_filter (r ! 0), sex = na_filter (r ! 1),
                          count = CInt v, year = y\<rparr>) recs vs
      = map2 (\<lambda>r v. \<lparr>name = Some (r ! 0), sex = Some (r ! 1),
                          count = CInt v, year = y\<rparr>) recs vs"
    by (rule map2_cong_left) (use three in \<open>simp add: list_all_iff text_token_not_na\<close>)
  then show ?thesis
    using read_entry_int_rows [OF assms(1,2,3) t3 ints] by simp
qed

text \<open>
  Claim C3, as stated: a row that does not have exactly three fields, or whose count is
  not a non-negative integer, makes the Loader fail. It does not: the entry below has a
  row with the count -5 and a row with two fields, and \<^verbatim>\<open>load_name_data\<close> returns a
  table with both rows, the count -5 in the first and a missing count in the
  second.
\<close>

theorem reader_validation_counterexample:
  "\<not> spec_row_ok [''Alice'', ''F'', ''-5''] \<and> \<not> spec_row_ok [''Bob'', ''M'']
   \<and> load_name_data [(''yob1999.txt'', [[''Alice'', ''F'', ''-5''], [''Bob'', ''M'']])]
     = Inr [\<lparr>name = Some ''Alice'', sex = Some ''F'', count = CInt (- 5), year = 1999, pct = Fin 1\<rparr>,
            \<lparr>name = Some ''Bob'', sex = Some ''M'', count = CNaN, year = 1999, pct = NaN\<rparr>]"
  by (simp add: eval_defs agg_defs spec_row_ok_def nonneg_int_field_def)

text \<open>
  Claim C3, amended. For every entry the Loader reads: if the entry has no record, or its
  first record does not have exactly three fields, or a later record has more than three
  fields, reading it raises \<^verbatim>\<open>EmptyDataError\<close>, \<^verbatim>\<open>ParserError\<close> or
  \<^verbatim>\<open>ValueError\<close> and the Loader raises and returns no table. Otherwise, when the name
  of the entry gives a year, every record yields one row with that year, in order. A
  later record with fewer than three fields is not rejected: its row has a missing count
  (and a missing sex when it has fewer than two fields); a count field that is an NA
  marker gives a missing count too; a name or sex field that is text (\<open>text_token\<close>: it
  holds a letter other than \<^verbatim>\<open>e\<close> and \<^verbatim>\<open>j\<close> and is no NA marker and no
  spelling of a truth value, an infinity or not-a-number) is kept as it stands. The
  count is not checked to be a non-negative integer: when every record has three fields,
  its name and sex fields are text and every count is a signed 64-bit integer literal of
  the reader, of either sign, the rows hold exactly these names, sexes and integers.
\<close>

theorem reader_shape_and_count:
  assumes "file \<in> set (files z)" and "zip_open z file = Some recs"
  shows "(bad_shape recs \<longrightarrow>
            (read_entry z file = Inl EmptyDataError \<or> read_entry z file = Inl ParserError
             \<or> read_entry z file = Inl ValueError)
            \<and> (\<exists>e. unified_table z = Inl e) \<and> (\<exists>e. load_name_data z = Inl e))
       \<and> (\<not> bad_shape recs \<and> py_int (slice 3 7 file) = Some y \<longrightarrow>
            (\<exists>rows. read_entry z file = Inr rows \<and> length rows = length recs
               \<and> (\<forall>i<length recs. year (rows ! i) = y
                     \<and> (length (recs ! i) < 3 \<or> is_na (recs ! i ! 2) \<longrightarrow> count (rows ! i) = CNaN)
                     \<and> (length (recs ! i) < 2 \<longrightarrow> sex (rows ! i) = None)
                     \<and> (1 \<le> length (recs ! i) \<and> text_token (recs ! i ! 0) \<longrightarrow>
                          name (rows ! i) = Some (recs ! i ! 0))
                     \<and> (2 \<le> length (recs ! i) \<and> text_token (recs ! i ! 1) \<longrightarrow>
                          sex (rows ! i) = Some (recs ! i ! 1)))))
       \<and> (\<not> bad_shape recs \<and> py_int (slice 3 7 file) = Some y
            \<and> list_all (\<lambda>r. length r = 3 \<and> text_token (r ! 0) \<and> text_token (r ! 1)) recs
            \<and> map pd_int (map (\<lambda>r. r ! 2) recs) = map Some vs \<longrightarrow>
            read_entry z file =
              Inr (map2 (\<lambda>r v. \<lparr>name = Some (r ! 0), sex = Some (r ! 1),
                                   count = CInt v, year = y\<rparr>) recs vs))"
proof (intro conjI impI)
  assume bad: "bad_shape recs"
  from read_entry_bad_shape [OF assms(2) bad]
  show "read_entry z file = Inl EmptyDataError \<or> read_entry z file = Inl ParserError
        \<or> read_entry z file = Inl ValueError" .
  then obtain e where "read_entry z file = Inl e" by blast
  from loader_raises [OF assms(1) this]
  show "\<exists>e. unified_table z = Inl e" and "\<exists>e. load_name_data z = Inl e" by blast+
next
  assume "\<not> bad_shape recs \<and> py_int (slice 3 7 file) = Some y"
  then show "\<exists>rows. read_entry z file = Inr rows \<and> length rows = length recs
               \<and> (\<forall>i<length recs. year (rows ! i) = y
                     \<and> (length (recs ! i) < 3 \<or> is_na (recs ! i ! 2) \<longrightarrow> count (rows ! i) = CNaN)
                     \<and> (length (recs ! i) < 2 \<longrightarrow> sex (rows ! i) = None)
                     \<and> (1 \<le> length (recs ! i) \<and> text_token (recs ! i ! 0) \<longrightarrow>
                          name (rows ! i) = Some (recs ! i ! 0))
                     \<and> (2 \<le> length (recs ! i) \<and> text_token (recs ! i ! 1) \<longrightarrow>
                          sex (rows ! i) = Some (recs ! i ! 1)))"
    using read_entry_rows [OF assms(2)] by blast
next
  assume "\<not> bad_shape recs \<and> py_int (slice 3 7 file) = Some y
            \<and> list_all (\<lambda>r. length r = 3 \<and> text_token (r ! 0) \<and> text_token (r ! 1)) recs
            \<and> map pd_int (map (\<lambda>r. r ! 2) recs) = map Some vs"
  then show "read_entry z file =
              Inr (map2 (\<lambda>r v. \<lparr>name = Some (r ! 0), sex = Some (r ! 1),
                                   count = CInt v, year = y\<rparr>) recs vs)"
    using read_entry_text_int_rows [OF assms(2)] by blast
qed

text \<open>
  The amended claim C3 on three entries: one with a record of four fields, which makes
  the Loader fail; one with a negative count and a short record, read as two rows with
  their names and sexes, the second with a missing count; one with three fields, text
  names and integer counts of both signs throughout.
\<close>

theorem reader_shape_and_count_witness:
  "bad_shape [[''Alice'', ''F'', ''100''], [''Bob'', ''M'', ''7'', ''8'']]
   \<and> (\<exists>e. load_name_data
         [(''yob1999.txt'', [[''Alice'', ''F'', ''100''], [''Bob'', ''M'', ''7'', ''8'']])] = Inl e)
   \<and> \<not> bad_shape [[''Alice'', ''F'', ''-5''], [''Bob'', ''M'']]
   \<and> (\<exists>rows. read_entry [(''yob1999.txt'', [[''Alice'', ''F'', ''-5''], [''Bob'', ''M'']])] ''yob1999.txt''
                = Inr rows
         \<and> length rows = 2 \<and> year (rows ! 0) = 1999 \<and> year (rows ! 1) = 1999
         \<and> name (rows ! 0) = Some ''Alice'' \<and> sex (rows ! 0) = Some ''F''
         \<and> name (rows ! 1) = Some ''Bob'' \<and> sex (rows ! 1) = Some ''M''
         \<and> count (rows ! 1) = CNaN)
   \<and> text_token ''Alice'' \<and> text_token ''F'' \<and> \<not> text_token ''1e5'' \<and> \<not> text_token ''NaN''
   \<and> \<not> text_token ''TRUE'' \<and> \<not> text_token ''12''
   \<and> read_entry [(''yob1999.txt'', [[''Alice'', ''F'', ''60''], [''Alice'', ''F'', ''-40'']])] ''yob1999.txt''
     = Inr [\<lparr>name = Some ''Alice'', sex = Some ''F'', count = CInt 60, year = 1999\<rparr>,
            \<lparr>name = Some ''Alice'', sex = Some ''F'', count = CInt (- 40), year = 1999\<rparr>]"
proof -
  let ?f = "''yob1999.txt''"
  let ?r1 = "[[''Alice'', ''F'', ''100''], [''Bob'', ''M'', ''7'', ''8'']]"
  let ?r2 = "[[''Alice'', ''F'', ''-5''], [''Bob'', ''M'']]"
  let ?r3 = "[[''Alice'', ''F'', ''60''], [''Alice'', ''F'', ''-40'']]"
  have fs: "\<And>recs. ?f \<in> set (files [(?f, recs)])"
    by (simp add: files_def namelist_def endswith_def)
  have op: "\<And>recs. zip_open [(?f, recs)] ?f = Some recs"
    by (simp add: zip_open_def)
  have y: "py_int (slice 3 7 ?f) = Some 1999"
    by (simp add: py_int_def py_strip_def py_space_def slice_def is_digit_def digits_val_def
        digit_val_def)
  have b1: "bad_shape ?r1" by (simp add: bad_shape_def)
  have b2: "\<not> bad_shape ?r2" by (simp add: bad_shape_def)
  have b3: "\<not> bad_shape ?r3" by (simp add: bad_shape_def)
  have i3: "map pd_int (map (\<lambda>r. r ! 2) ?r3) = map Some [60, - 40]"
    by (simp add: pd_int_def c_space_def is_digit_def digits_val_def digit_val_def)
  have ta: "text_token ''Alice''" by (simp add: token_eval)
  have tf: "text_token ''F''" by (simp add: token_eval)
  have n1: "\<not> text_token ''1e5''" by (simp add: token_eval)
  have n2: "\<not> text_token ''NaN''" by (simp add: token_eval)
  have n3: "\<not> text_token ''TRUE''" by (simp add: token_eval)
  have n4: "\<not> text_token ''12''" by (simp add: token_eval)
  have t3: "list_all (\<lambda>r. length r = 3 \<and> text_token (r ! 0) \<and> text_token (r ! 1)) ?r3"
    using ta tf by simp
  from reader_shape_and_count [OF fs op, of ?r1] b1
  have w1: "\<exists>e. load_name_data [(?f, ?r1)] = Inl e" by blast
  from reader_shape_and_count [OF fs op, of ?r2 1999] b2 y
  obtain rows where r: "read_entry [(?f, ?r2)] ?f = Inr rows" and l: "length rows = length ?r2"
    and a: "\<forall>i<length ?r2. year (rows ! i) = 1999
                     \<and> (length (?r2 ! i) < 3 \<or> is_na (?r2 ! i ! 2) \<longrightarrow> count (rows ! i) = CNaN)
                     \<and> (length (?r2 ! i) < 2 \<longrightarrow> sex (rows ! i) = None)
                     \<and> (1 \<le> length (?r2 ! i) \<and> text_token (?r2 ! i ! 0) \<longrightarrow>
                          name (rows ! i) = Some (?r2 ! i ! 0))
                     \<and> (2 \<le> length (?r2 ! i) \<and> text_token (?r2 ! i ! 1) \<longrightarrow>
                          sex (rows ! i) = Some (?r2 ! i ! 1))"
    by blast
  have tb: "text_token ''Bob''" by (simp add: token_eval)
  have tm: "text_token ''M''" by (simp add: token_eval)
  from a [rule_format, of 0] ta tf
  have "year (rows ! 0) = 1999 \<and> name (rows ! 0) = Some ''Alice'' \<and> sex (rows ! 0) = Some ''F''"
    by simp
  moreover from a [rule_format, of 1] tb tm
  have "year (rows ! 1) = 1999 \<and> count (rows ! 1) = CNaN
        \<and> name (rows ! 1) = Some ''Bob'' \<and> sex (rows ! 1) = Some ''M''"
    by simp
  ultimately have w2: "\<exists>rows. read_entry [(?f, ?r2)] ?f = Inr rows
         \<and> length rows = 2 \<and> year (rows ! 0) = 1999 \<and> year (rows ! 1) = 1999
         \<and> name (rows ! 0) = Some ''Alice'' \<and> sex (rows ! 0) = Some ''F''
         \<and> name (rows ! 1) = Some ''Bob'' \<and> sex (rows ! 1) = Some ''M''
         \<and> count (rows ! 1) = CNaN"
    using r l by simp
  from reader_shape_and_count [OF fs op, of ?r3 1999 "[60, - 40]"] b3 y i3 t3
  have "read_entry [(?f, ?r3)] ?f =
      Inr (map2 (\<lambda>r v. \<lparr>name = Some (r ! 0), sex = Some (r ! 1),
                           count = CInt v, year = 1999\<rparr>) ?r3 [60, - 40])"
    by blast
  then have w3: "read_entry [(?f, ?r3)] ?f =
      Inr [\<lparr>name = Some ''Alice'', sex = Some ''F'', count = CInt 60, year = 1999\<rparr>,
           \<lparr>name = Some ''Alice'', sex = Some ''F'', count = CInt (- 40), year = 1999\<rparr>]"
    by simp
  from b1 w1 b2 w2 ta tf n1 n2 n3 n4 w3 show ?thesis by blast
qed

section \<open>The year of an entry\<close>

text \<open>
  A slice of decimal digits is accepted by \<^verbatim>\<open>int\<close> with its decimal value; a frame that
  was read carries one year, the one \<^verbatim>\<open>int\<close> gave; an entry whose slice \<^verbatim>\<open>int\<close>
  rejects raises.
\<close>

lemma is_digit_not_space: "is_digit c \<Longrightarrow> \<not> py_space c"
  by (auto simp: is_digit_def py_space_def)

lemma py_strip_digits:
  assumes "list_all is_digit ds"
  shows "py_strip ds = ds"
proof (cases ds rule: rev_cases)
  case Nil
  then show ?thesis by (simp add: py_strip_def)
next
  case (snoc xs x)
  with assms have x: "\<not> py_space x" by (simp add: is_digit_not_space)
  show ?thesis
  proof (cases ds)
    case Nil
    then show ?thesis by (simp add: py_strip_def)
  next
    case (Cons y ys)
    with assms have "\<not> py_space y" by (simp add: is_digit_not_space)
    with Cons have "dropWhile py_space ds = ds" by simp
    with snoc x show ?thesis by (simp add: py_strip_def)
  qed
qed

lemma py_digitpart_digits:
  "ds \<noteq> [] \<Longrightarrow> list_all is_digit ds \<Longrightarrow> py_digitpart ds = Some ds"
proof (induction ds rule: py_digitpart.induct)
  case 1
  then show ?case by simp
next
  case (2 c)
  then show ?case by simp
next
  case (3 c d cs)
  then have "d \<noteq> CHR ''_''" by (auto simp: is_digit_def)
  with 3 show ?case by simp
qed

lemma py_int_digits:
  assumes "ds \<noteq> []" "list_all is_digit ds"
  shows "py_int ds = Some (int (digits_val ds))"
proof -
  obtain c cs where ds: "ds = c # cs" using assms(1) by (cases ds) auto
  with assms(2) have "is_digit c" by simp
  then have "c \<noteq> CHR ''-''" "c \<noteq> CHR ''+''" by (auto simp: is_digit_def)
  moreover have "py_strip (c # cs) = c # cs"
    using py_strip_digits [OF assms(2)] ds by simp
  moreover have "py_digitpart (c # cs) = Some (c # cs)"
    using py_digitpart_digits [OF assms] ds by simp
  ultimately show ?thesis
    by (simp add: py_int_def ds)
qed

lemma read_entry_year:
  assumes "read_entry z f = Inr rows"
  shows "\<exists>y. py_int (slice 3 7 f) = Some y \<and> (\<forall>r\<in>set rows. year r = y)"
  using assms
  by (auto simp: read_entry_def with_year_def split: option.splits sum.splits)

lemma read_entry_bad_year:
  "py_int (slice 3 7 f) = None \<Longrightarrow> \<exists>e. read_entry z f = Inl e"
  by (auto simp: read_entry_def split: option.splits sum.splits)

lemma zip_open_member:
  "f \<in> set (map fst z) \<Longrightarrow> \<exists>recs. zip_open z f = Some recs"
proof -
  assume "f \<in> set (map fst z)"
  then have "f \<in> fst ` set (rev z)" by simp
  then have "map_of (rev z) f \<noteq> None" by (simp only: map_of_eq_None_iff not_not)
  then show ?thesis by (auto simp: zip_open_def)
qed

lemma read_entry_bad_year_shape:
  assumes "zip_open z f = Some recs" "\<not> bad_shape recs" "py_int (slice 3 7 f) = None"
  shows "read_entry z f = Inl ValueError"
proof -
  from assms(2) obtain first rest where recs: "recs = first # rest"
    by (cases recs) (auto simp: bad_shape_def)
  with assms(2) have w: "length first = 3" and
    rest: "\<not> list_ex (\<lambda>r. length first < length r) rest"
    by (auto simp: bad_shape_def)
  have csv: "read_csv recs = Inr (map (pad 3) recs)"
    using rest w by (simp add: recs read_csv_Cons)
  have "\<exists>df. set_columns (map (pad 3) recs) = Inr df"
    unfolding recs using w by (simp add: set_columns_def length_pad)
  then obtain df where "set_columns (map (pad 3) recs) = Inr df" by blast
  then show ?thesis
    using assms(1,3) csv by (simp add: read_entry_def)
qed

text \<open>
  Claim C4, as stated: every archive entry whose name has no valid 4-digit year at the
  fixed offsets makes the Loader fail, and no such entry is skipped. Both fail on the
  archive below. \<^verbatim>\<open>NationalReadMe.pdf\<close> has the characters \<^verbatim>\<open>iona\<close> at offsets 3 to
  6 and is passed over by line 18, silently; \<^verbatim>\<open>yob-199.txt\<close> has \<^verbatim>\<open>-199\<close> there,
  which is no 4-digit year, and \<^verbatim>\<open>int\<close> takes it as the year -199. The Loader returns
  its table.
\<close>

theorem entry_name_counterexample:
  "py_int (slice 3 7 ''NationalReadMe.pdf'') = None
   \<and> \<not> list_all is_digit (slice 3 7 ''yob-199.txt'')
   \<and> load_name_data
       [(''yob1999.txt'', [[''Alice'', ''F'', ''100'']]),
        (''NationalReadMe.pdf'', [[''text'']]),
        (''yob-199.txt'', [[''Bob'', ''M'', ''50'']])]
     = Inr [\<lparr>name = Some ''Alice'', sex = Some ''F'', count = CInt 100, year = 1999, pct = Fin 1\<rparr>,
            \<lparr>name = Some ''Bob'', sex = Some ''M'', count = CInt 50, year = - 199, pct = Fin 1\<rparr>]"
  by (simp add: eval_defs agg_defs)

text \<open>
  Claim C4, amended. For every archive entry whose name ends in \<^verbatim>\<open>.txt\<close> and whose
  characters at offsets 3 to 6 are rejected by Python's \<^verbatim>\<open>int\<close>, reading the entry
  raises \<^verbatim>\<open>EmptyDataError\<close>, \<^verbatim>\<open>ParserError\<close> or \<^verbatim>\<open>ValueError\<close>, and the
  Loader raises and returns no table. When the records of the entry have a shape the
  reader takes, the exception of the entry is the \<^verbatim>\<open>ValueError\<close> of \<^verbatim>\<open>int\<close> in
  line 23; otherwise lines 21 and 22 raise before line 23 is reached. An entry whose name
  does not end in \<^verbatim>\<open>.txt\<close> is not among the files read, and is skipped without an
  error. Every record of a frame that was read carries the year \<^verbatim>\<open>int\<close> gave for
  the name of its entry, and four decimal digits at the offsets give the year they
  spell.
\<close>

theorem year_of_entry_name:
  "(file \<in> set (map fst z) \<and> endswith file ''.txt'' \<and> py_int (slice 3 7 file) = None \<longrightarrow>
      (read_entry z file = Inl EmptyDataError \<or> read_entry z file = Inl ParserError
       \<or> read_entry z file = Inl ValueError)
      \<and> (\<exists>e. unified_table z = Inl e) \<and> (\<exists>e. load_name_data z = Inl e))
   \<and> (zip_open z file = Some recs \<and> \<not> bad_shape recs \<and> py_int (slice 3 7 file) = None \<longrightarrow>
        read_entry z file = Inl ValueError)
   \<and> (read_entry z file = Inr rows \<longrightarrow>
        (\<exists>y. py_int (slice 3 7 file) = Some y \<and> (\<forall>r\<in>set rows. year r = y)))
   \<and> (length (slice 3 7 file) = 4 \<and> list_all is_digit (slice 3 7 file) \<longrightarrow>
        py_int (slice 3 7 file) = Some (int (digits_val (slice 3 7 file))))
   \<and> (\<not> endswith file ''.txt'' \<longrightarrow> file \<notin> set (files z))"
proof (intro conjI impI)
  assume a: "file \<in> set (map fst z) \<and> endswith file ''.txt'' \<and> py_int (slice 3 7 file) = None"
  then obtain rs where rs: "zip_open z file = Some rs" using zip_open_member by blast
  show r: "read_entry z file = Inl EmptyDataError \<or> read_entry z file = Inl ParserError
       \<or> read_entry z file = Inl ValueError"
  proof (cases "bad_shape rs")
    case True
    from read_entry_bad_shape [OF rs True] show ?thesis .
  next
    case False
    from a have "py_int (slice 3 7 file) = None" by simp
    from read_entry_bad_year_shape [OF rs False this] show ?thesis by simp
  qed
  from a have f: "file \<in> set (files z)" by (simp add: files_def namelist_def)
  from r obtain e where "read_entry z file = Inl e" by blast
  from loader_raises [OF f this]
  show "\<exists>e. unified_table z = Inl e" and "\<exists>e. load_name_data z = Inl e" by blast+
next
  assume "zip_open z file = Some recs \<and> \<not> bad_shape recs \<and> py_int (slice 3 7 file) = None"
  then show "read_entry z file = Inl ValueError"
    using read_entry_bad_year_shape by blast
next
  assume "read_entry z file = Inr rows"
  then show "\<exists>y. py_int (slice 3 7 file) = Some y \<and> (\<forall>r\<in>set rows. year r = y)"
    by (rule read_entry_year)
next
  assume a: "length (slice 3 7 file) = 4 \<and> list_all is_digit (slice 3 7 file)"
  then have "slice 3 7 file \<noteq> []" by auto
  with a show "py_int (slice 3 7 file) = Some (int (digits_val (slice 3 7 file)))"
    by (simp add: py_int_digits)
next
  assume "\<not> endswith file ''.txt''"
  then show "file \<notin> set (files z)" by (simp add: files_def)
qed

text \<open>
  The amended claim C4 on concrete archives: \<^verbatim>\<open>yobABCD.txt\<close> makes the Loader fail,
  with the \<^verbatim>\<open>ValueError\<close> of \<^verbatim>\<open>int\<close> when its records can be read and with
  \<^verbatim>\<open>EmptyDataError\<close> when it has none; a name with the separator 31 before
  \<^verbatim>\<open>199\<close> is rejected by \<^verbatim>\<open>int\<close> too; the records of \<^verbatim>\<open>yob1999.txt\<close> carry
  the year 1999; \<^verbatim>\<open>NationalReadMe.pdf\<close> is not among the files read.
\<close>

theorem year_of_entry_name_witness:
  "(\<exists>e. load_name_data [(''yob1999.txt'', [[''Alice'', ''F'', ''100'']]),
                          (''yobABCD.txt'', [[''Bob'', ''M'', ''50'']])] = Inl e)
   \<and> read_entry [(''yob1999.txt'', [[''Alice'', ''F'', ''100'']]),
                 (''yobABCD.txt'', [[''Bob'', ''M'', ''50'']])] ''yobABCD.txt'' = Inl ValueError
   \<and> py_int [CHR 0x1F, CHR ''1'', CHR ''9'', CHR ''9''] = None
   \<and> read_entry [(''yob'' @ [CHR 0x1F] @ ''199.txt'', [[''Bob'', ''M'', ''50'']])]
         (''yob'' @ [CHR 0x1F] @ ''199.txt'') = Inl ValueError
   \<and> read_entry [(''yobABCD.txt'', [])] ''yobABCD.txt'' = Inl EmptyDataError
   \<and> read_entry [(''yob1999.txt'', [[''Alice'', ''F'', ''100''], [''Bob'', ''M'', ''50'']])] ''yob1999.txt''
       = Inr [\<lparr>name = Some ''Alice'', sex = Some ''F'', count = CInt 100, year = 1999\<rparr>,
              \<lparr>name = Some ''Bob'', sex = Some ''M'', count = CInt 50, year = 1999\<rparr>]
   \<and> py_int (slice 3 7 ''yob1999.txt'') = Some 1999
   \<and> year \<lparr>name = Some ''Bob'', sex = Some ''M'', count = CInt 50, year = 1999\<rparr> = 1999
   \<and> ''NationalReadMe.pdf'' \<notin> set (files [(''yob1999.txt'', [[''Alice'', ''F'', ''100'']]),
                                              (''NationalReadMe.pdf'', [[''text'']])])"
proof -
  let ?z1 = "[(''yob1999.txt'', [[''Alice'', ''F'', ''100'']]), (''yobABCD.txt'', [[''Bob'', ''M'', ''50'']])]"
  let ?z2 = "[(''yob1999.txt'', [[''Alice'', ''F'', ''100''], [''Bob'', ''M'', ''50'']])]"
  let ?z3 = "[(''yob1999.txt'', [[''Alice'', ''F'', ''100'']]), (''NationalReadMe.pdf'', [[''text'']])]"
  let ?f4 = "''yob'' @ [CHR 0x1F] @ ''199.txt''"
  let ?z4 = "[(?f4, [[''Bob'', ''M'', ''50'']])]"
  let ?rows = "[\<lparr>name = Some ''Alice'', sex = Some ''F'', count = CInt 100, year = 1999\<rparr>,
                \<lparr>name = Some ''Bob'', sex = Some ''M'', count = CInt 50, year = 1999\<rparr>]"
  have f1: "''yobABCD.txt'' \<in> set (map fst ?z1) \<and> endswith ''yobABCD.txt'' ''.txt''"
    by (simp add: endswith_def)
  have n1: "py_int (slice 3 7 ''yobABCD.txt'') = None"
    by (simp add: py_int_def py_strip_def py_space_def slice_def is_digit_def)
  have o1: "zip_open ?z1 ''yobABCD.txt'' = Some [[''Bob'', ''M'', ''50'']]"
    by (simp add: zip_open_def)
  have s1: "\<not> bad_shape [[''Bob'', ''M'', ''50'']]" by (simp add: bad_shape_def)
  have s4: "slice 3 7 ?f4 = [CHR 0x1F, CHR ''1'', CHR ''9'', CHR ''9'']"
    by (simp add: slice_def)
  have n4: "py_int [CHR 0x1F, CHR ''1'', CHR ''9'', CHR ''9''] = None"
    by (simp add: py_int_def py_strip_def py_space_def is_digit_def)
  have o4: "zip_open ?z4 ?f4 = Some [[''Bob'', ''M'', ''50'']]"
    by (simp add: zip_open_def)
  have e5: "read_entry [(''yobABCD.txt'', [])] ''yobABCD.txt'' = Inl EmptyDataError"
    by (simp add: read_entry_def zip_open_def read_csv_def)
  have r2: "read_entry ?z2 ''yob1999.txt'' = Inr ?rows"
    by (simp add: eval_defs)
  have d3: "length (slice 3 7 ''yob1999.txt'') = 4 \<and> list_all is_digit (slice 3 7 ''yob1999.txt'')"
    by (simp add: slice_def is_digit_def)
  have v3: "int (digits_val (slice 3 7 ''yob1999.txt'')) = 1999"
    by (simp add: slice_def digits_val_def digit_val_def)
  have e4: "\<not> endswith ''NationalReadMe.pdf'' ''.txt''"
    by (simp add: endswith_def)
  from year_of_entry_name [of "''yobABCD.txt''" ?z1 "[[''Bob'', ''M'', ''50'']]"] f1 n1 o1 s1
  have w1: "(\<exists>e. load_name_data ?z1 = Inl e) \<and> read_entry ?z1 ''yobABCD.txt'' = Inl ValueError"
    by blast
  from year_of_entry_name [of ?f4 ?z4 "[[''Bob'', ''M'', ''50'']]"] o4 s1 n4 [folded s4]
  have w4: "read_entry ?z4 ?f4 = Inl ValueError" by blast
  from year_of_entry_name [of "''yob1999.txt''" ?z2 _ ?rows] r2 d3 v3
  have w2: "py_int (slice 3 7 ''yob1999.txt'') = Some 1999
            \<and> year \<lparr>name = Some ''Bob'', sex = Some ''M'', count = CInt 50, year = 1999\<rparr> = 1999"
    by simp
  from year_of_entry_name [of "''NationalReadMe.pdf''" ?z3] e4
  have w3: "''NationalReadMe.pdf'' \<notin> set (files ?z3)" by blast
  from w1 w4 n4 e5 r2 w2 w3 show ?thesis by blast
qed

section \<open>The proportions\<close>

text \<open>
  Line 28 succeeds exactly when the count column holds no text, and then gives every row
  the quotient of its count and the total of its group. Inside a group whose counts are
  integers \<open>cs\<close> with a sum in the 64-bit range, the total is that sum.
\<close>

lemma count_dtype_Object: "count_dtype cs = Object \<longleftrightarrow> list_ex is_text cs"
  by (simp add: count_dtype_def)

lemma transform_sum_Inr:
  "transform_sum data = Inr ts \<longleftrightarrow>
     \<not> list_ex is_text (map count data) \<and> ts = map (total_of data) data"
  by (auto simp: transform_sum_def Let_def total_of_def count_dtype_Object)

lemma truediv1_numeric: "\<not> is_text c \<Longrightarrow> truediv1 c t = Inr (fdiv (to_float c) t)"
  by (cases c) auto

lemma truediv_numeric:
  "\<not> list_ex is_text cs \<Longrightarrow> truediv cs ts = Inr (map2 (\<lambda>c t. fdiv (to_float c) t) cs ts)"
proof (induction cs arbitrary: ts)
  case Nil
  show ?case by simp
next
  case (Cons c cs)
  show ?case
  proof (cases ts)
    case Nil
    then show ?thesis by simp
  next
    case (Cons t ts')
    with Cons.prems Cons.IH [of ts'] show ?thesis by (simp add: truediv1_numeric)
  qed
qed

lemma map2_same: "map2 f (map g xs) (map h xs) = map (\<lambda>x. f (g x) (h x)) xs"
  by (induction xs) auto

lemma map2_self: "map2 f xs (map h xs) = map (\<lambda>x. f x (h x)) xs"
  by (induction xs) auto

lemma add_pct_Inr:
  "add_pct data = Inr df \<longleftrightarrow>
     \<not> list_ex is_text (map count data) \<and>
     df = map (\<lambda>r. \<lparr>name = name r, sex = sex r, count = count r, year = year r,
                      pct = pct_of data r\<rparr>) data"
proof (cases "list_ex is_text (map count data)")
  case True
  then have "transform_sum data = Inl TypeError"
    by (simp add: transform_sum_def count_dtype_Object)
  with True show ?thesis by (simp add: add_pct_def)
next
  case False
  then have ts: "transform_sum data = Inr (map (total_of data) data)"
    by (simp add: transform_sum_Inr)
  have "truediv (map count data) (map (total_of data) data)
        = Inr (map (pct_of data) data)"
    using truediv_numeric [OF False] by (simp add: map2_same pct_of_def)
  with ts False show ?thesis
    by (auto simp: add_pct_def map2_self)
qed

lemma wrap64_id: "- (2 ^ 63) \<le> x \<Longrightarrow> x < 2 ^ 63 \<Longrightarrow> wrap64 x = x"
  by (simp add: wrap64_def)

lemma group_sum_in_range:
  "- (2 ^ 63) \<le> sum_list cs \<Longrightarrow> sum_list cs < 2 ^ 63 \<Longrightarrow> group_sum dt cs = sum_list cs"
  by (simp add: group_sum_def wrap64_id)

lemma in_group_fun: "in_group y s = (\<lambda>r. year r = y \<and> sex r = Some s)"
  by (rule ext) (simp add: in_group_def)

lemma group_counts_filter:
  "group_counts data y s =
     concat (map (\<lambda>c. case c of CInt v \<Rightarrow> [v] | _ \<Rightarrow> []) (map count (filter (in_group y s) data)))"
  by (simp add: group_counts_def in_group_fun comp_def)

lemma group_counts_ints:
  "map count (filter (in_group y s) data) = map CInt cs \<Longrightarrow> group_counts data y s = cs"
proof -
  have "concat (map (\<lambda>c. case c of CInt v \<Rightarrow> [v] | _ \<Rightarrow> []) (map CInt cs)) = cs"
    by (induction cs) auto
  then show "map count (filter (in_group y s) data) = map CInt cs \<Longrightarrow> group_counts data y s = cs"
    by (simp only: group_counts_filter)
qed

lemma total_of_in_group:
  "in_group y s r \<Longrightarrow>
     total_of data r
       = Fin (of_int (group_sum (count_dtype (map count data)) (group_counts data y s)))"
  by (simp add: total_of_def in_group_def)

lemma filter_add_pct:
  "filter (in_group y s)
      (map (\<lambda>r. \<lparr>name = name r, sex = sex r, count = count r, year = year r,
                    pct = pct_of data r\<rparr>) data)
   = map (\<lambda>r. \<lparr>name = name r, sex = sex r, count = count r, year = year r,
                    pct = pct_of data r\<rparr>) (filter (in_group y s) data)"
  by (simp add: filter_map comp_def in_group_fun)

lemma pct_of_in_group:
  assumes "in_group y s r" "count r = CInt c"
    and "group_counts data y s = cs"
    and "- (2 ^ 63) \<le> sum_list cs" "sum_list cs < 2 ^ 63" "sum_list cs \<noteq> 0"
  shows "pct_of data r = Fin (of_int c / of_int (sum_list cs))"
  using assms by (simp add: pct_of_def total_of_in_group group_sum_in_range)

lemma group_pct:
  assumes df: "add_pct data = Inr df"
    and cnt: "map count (filter (in_group y s) df) = map CInt cs"
    and range: "- (2 ^ 63) \<le> sum_list cs" "sum_list cs < 2 ^ 63"
    and nz: "sum_list cs \<noteq> 0"
  shows "map pct (filter (in_group y s) df)
         = map (\<lambda>c. Fin (of_int c / of_int (sum_list cs))) cs"
proof -
  let ?g = "filter (in_group y s) data"
  from df have dfm: "df = map (\<lambda>r. \<lparr>name = name r, sex = sex r, count = count r, year = year r,
                      pct = pct_of data r\<rparr>) data"
    by (simp add: add_pct_Inr)
  have flt: "filter (in_group y s) df
      = map (\<lambda>r. \<lparr>name = name r, sex = sex r, count = count r, year = year r,
                      pct = pct_of data r\<rparr>) ?g"
    unfolding dfm by (rule filter_add_pct)
  then have cnt': "map count ?g = map CInt cs"
    using cnt by (simp add: comp_def)
  then have gc: "group_counts data y s = cs" by (rule group_counts_ints)
  have "map (pct_of data) ?g = map (\<lambda>c. Fin (of_int c / of_int (sum_list cs))) cs"
  proof (rule nth_equalityI)
    show "length (map (pct_of data) ?g) = length (map (\<lambda>c. Fin (of_int c / of_int (sum_list cs))) cs)"
      using arg_cong [OF cnt', of length] by simp
  next
    fix i assume i: "i < length (map (pct_of data) ?g)"
    then have ig: "i < length ?g" by simp
    then have mem: "?g ! i \<in> set ?g" by (rule nth_mem)
    then have grp: "in_group y s (?g ! i)" by simp
    have len: "length cs = length ?g" using arg_cong [OF cnt', of length] by simp
    have "map count ?g ! i = map CInt cs ! i" using cnt' by simp
    then have c: "count (?g ! i) = CInt (cs ! i)" using ig len by simp
    from pct_of_in_group [OF grp c gc range nz]
    show "map (pct_of data) ?g ! i = map (\<lambda>c. Fin (of_int c / of_int (sum_list cs))) cs ! i"
      using ig len by simp
  qed
  then show ?thesis by (simp add: flt comp_def)
qed








text \<open>
  Claim C5, as stated: every proportion lies between 0 and 1 when every count is a
  non-negative integer. Zero is such a count: in a group whose counts are all zero the
  proportions are \<open>NaN\<close>, which lies in no interval.
\<close>

theorem zero_count_proportion_counterexample:
  "load_name_data [(''yob2000.txt'', [[''Bob'', ''M'', ''0''], [''Carl'', ''M'', ''0'']])]
     = Inr [\<lparr>name = Some ''Bob'', sex = Some ''M'', count = CInt 0, year = 2000, pct = NaN\<rparr>,
            \<lparr>name = Some ''Carl'', sex = Some ''M'', count = CInt 0, year = 2000, pct = NaN\<rparr>]
   \<and> spec_row_ok [''Bob'', ''M'', ''0''] \<and> spec_row_ok [''Carl'', ''M'', ''0'']
   \<and> \<not> in_unit_interval NaN"
  by (simp add: eval_defs agg_defs spec_row_ok_def nonneg_int_field_def)

lemma member_le_sum_list_int:
  "(\<And>x. x \<in> set cs \<Longrightarrow> 0 \<le> x) \<Longrightarrow> (c::int) \<in> set cs \<Longrightarrow> c \<le> sum_list cs"
proof (induction cs)
  case Nil
  then show ?case by simp
next
  case (Cons a cs)
  have nn: "0 \<le> sum_list cs" by (rule sum_list_nonneg) (simp add: Cons.prems)
  have a: "0 \<le> a" by (simp add: Cons.prems)
  show ?case
  proof (cases "c = a")
    case True
    with nn show ?thesis by simp
  next
    case False
    with Cons.prems have "c \<in> set cs" by simp
    then have "c \<le> sum_list cs" by (intro Cons.IH) (simp_all add: Cons.prems)
    with a show ?thesis by simp
  qed
qed

text \<open>
  Claim C5, amended. In every group (year, sex) of the enriched table whose counts are
  non-negative integers with a sum that is positive (and below \<open>2 ^ 63\<close>, so that the
  64-bit total does not wrap around), the proportion of every row lies in the closed
  interval from 0 to 1.
\<close>

theorem proportion_in_unit_interval:
  assumes "add_pct data = Inr df"
    and "map count (filter (in_group y s) df) = map CInt cs"
    and "list_all (\<lambda>c. 0 \<le> c) cs"
    and "0 < sum_list cs" and "sum_list cs < 2 ^ 63"
  shows "list_all (\<lambda>r. in_unit_interval (pct r)) (filter (in_group y s) df)"
  unfolding list_all_iff
proof
  fix r assume r: "r \<in> set (filter (in_group y s) df)"
  have m: "map pct (filter (in_group y s) df) = map (\<lambda>c. Fin (of_int c / of_int (sum_list cs))) cs"
    using assms by (intro group_pct) auto
  from r have "pct r \<in> set (map pct (filter (in_group y s) df))" by (simp only: set_map image_eqI)
  then obtain c where c: "c \<in> set cs" and p: "pct r = Fin (of_int c / of_int (sum_list cs))"
    unfolding m by auto
  from c assms(3) have c0: "0 \<le> c" by (simp add: list_all_iff)
  have cs: "c \<le> sum_list cs"
    using assms(3) c by (intro member_le_sum_list_int) (auto simp: list_all_iff)
  have "(0::rat) \<le> of_int c / of_int (sum_list cs)"
    using c0 assms(4) by simp
  moreover have "of_int c / of_int (sum_list cs) \<le> (1::rat)"
    using cs assms(4) by (simp add: divide_le_eq)
  ultimately show "in_unit_interval (pct r)" using p by simp
qed

text \<open>The amended claim C5 on a group with the counts 30, 10 and 0.\<close>

theorem proportion_in_unit_interval_witness:
  "add_pct [\<lparr>name = Some ''Bob'', sex = Some ''M'', count = CInt 30, year = 2000\<rparr>,
            \<lparr>name = Some ''Carl'', sex = Some ''M'', count = CInt 10, year = 2000\<rparr>,
            \<lparr>name = Some ''Dan'', sex = Some ''M'', count = CInt 0, year = 2000\<rparr>]
     = Inr [\<lparr>name = Some ''Bob'', sex = Some ''M'', count = CInt 30, year = 2000, pct = Fin (3 / 4)\<rparr>,
            \<lparr>name = Some ''Carl'', sex = Some ''M'', count = CInt 10, year = 2000, pct = Fin (1 / 4)\<rparr>,
            \<lparr>name = Some ''Dan'', sex = Some ''M'', count = CInt 0, year = 2000, pct = Fin 0\<rparr>]
   \<and> list_all (\<lambda>r. in_unit_interval (pct r)) (filter (in_group 2000 ''M'')
           [\<lparr>name = Some ''Bob'', sex = Some ''M'', count = CInt 30, year = 2000, pct = Fin (3 / 4)\<rparr>,
            \<lparr>name = Some ''Carl'', sex = Some ''M'', count = CInt 10, year = 2000, pct = Fin (1 / 4)\<rparr>,
            \<lparr>name = Some ''Dan'', sex = Some ''M'', count = CInt 0, year = 2000, pct = Fin 0\<rparr>])"
proof -
  let ?data = "[\<lparr>name = Some ''Bob'', sex = Some ''M'', count = CInt 30, year = 2000\<rparr>,
            \<lparr>name = Some ''Carl'', sex = Some ''M'', count = CInt 10, year = 2000\<rparr>,
            \<lparr>name = Some ''Dan'', sex = Some ''M'', count = CInt 0, year = 2000\<rparr>]"
  let ?df = "[\<lparr>name = Some ''Bob'', sex = Some ''M'', count = CInt 30, year = 2000, pct = Fin (3 / 4)\<rparr>,
            \<lparr>name = Some ''Carl'', sex = Some ''M'', count = CInt 10, year = 2000, pct = Fin (1 / 4)\<rparr>,
            \<lparr>name = Some ''Dan'', sex = Some ''M'', count = CInt 0, year = 2000, pct = Fin 0\<rparr>]"
  have a: "add_pct ?data = Inr ?df"
    by (simp add: agg_defs)
  have c: "map count (filter (in_group 2000 ''M'') ?df) = map CInt [30, 10, 0]"
    by (simp add: in_group_def)
  have s: "list_all (\<lambda>c. 0 \<le> c) [30, 10, 0 :: int]" "0 < sum_list [30, 10, 0 :: int]"
    "sum_list [30, 10, 0 :: int] < 2 ^ 63"
    by simp_all
  from proportion_in_unit_interval [OF a c s]
  have "list_all (\<lambda>r. in_unit_interval (pct r)) (filter (in_group 2000 ''M'') ?df)" .
  with a show ?thesis by blast
qed

section \<open>The two proportion columns\<close>

text \<open>
  Lines 35-36 group the table that line 28 extended; the grouping reads the columns
  \<^verbatim>\<open>year\<close>, \<^verbatim>\<open>sex\<close> and \<^verbatim>\<open>count\<close> only, which line 28 left as they were.
\<close>

lemma group_counts_cong:
  "map (\<lambda>r. (year r, sex r, count r)) a = map (\<lambda>r. (year r, sex r, count r)) b
   \<Longrightarrow> group_counts a y s = group_counts b y s"
proof (induction a arbitrary: b)
  case Nil
  then show ?case by (simp add: group_counts_def)
next
  case (Cons x xs)
  then obtain z zs where b: "b = z # zs" by (cases b) auto
  with Cons.prems have k: "year x = year z" "sex x = sex z" "count x = count z"
    and rest: "map (\<lambda>r. (year r, sex r, count r)) xs = map (\<lambda>r. (year r, sex r, count r)) zs"
    by auto
  from Cons.IH [OF rest] have "group_counts xs y s = group_counts zs y s" .
  with k show ?case by (simp add: b group_counts_def)
qed

lemma keys_add_pct:
  "map (\<lambda>r. (year r, sex r, count r))
     (map (\<lambda>r. \<lparr>name = name r, sex = sex r, count = count r, year = year r,
                   pct = f r\<rparr>) data)
   = map (\<lambda>r. (year r, sex r, count r)) data"
  by (simp add: comp_def)

lemma total_of_cong:
  assumes "map (\<lambda>r. (year r, sex r, count r)) a = map (\<lambda>r. (year r, sex r, count r)) b"
    and "sex r = sex r'" "year r = year r'"
  shows "total_of a r = total_of b r'"
proof -
  have c: "map count a = map count b"
    using arg_cong [OF assms(1), of "map (\<lambda>t. snd (snd t))"] by (simp add: comp_def)
  have g: "\<And>y s. group_counts a y s = group_counts b y s"
    using assms(1) by (rule group_counts_cong)
  show ?thesis
    unfolding total_of_def c g assms(2,3) ..
qed

lemma map2_zip_same:
  "map2 (\<lambda>r (t, p). F r t p) (map e xs) (zip (map g xs) (map h xs))
   = map (\<lambda>x. F (e x) (g x) (h x)) xs"
  by (induction xs) auto

lemma add_total_births_prop_Inr:
  assumes "add_pct data = Inr df"
  shows "add_total_births_prop df =
     Inr (map (\<lambda>r. \<lparr>name = name r, sex = sex r, count = count r, year = year r,
                      pct = pct_of data r, total_births = total_of data r,
                      prop' = pct_of data r\<rparr>) data)"
proof -
  let ?ext = "\<lambda>r. \<lparr>name = name r, sex = sex r, count = count r, year = year r,
                      pct = pct_of data r\<rparr>"
  from assms have nt: "\<not> list_ex is_text (map count data)" and df: "df = map ?ext data"
    by (simp_all add: add_pct_Inr)
  have cnt: "map count df = map count data" by (simp add: df comp_def)
  have keys: "map (\<lambda>r. (year r, sex r, count r)) df = map (\<lambda>r. (year r, sex r, count r)) data"
    unfolding df by (rule keys_add_pct)
  have tot: "map (total_of df) df = map (total_of data) data"
    unfolding df map_map comp_def
    by (rule map_cong [OF refl]) (rule total_of_cong [OF keys [unfolded df]], simp_all)
  have ts: "transform_sum df = Inr (map (total_of data) data)"
    using nt by (simp add: transform_sum_Inr cnt tot)
  have td: "truediv (map count df) (map (total_of data) data) = Inr (map (pct_of data) data)"
    using truediv_numeric [of "map count data"] nt
    by (simp add: cnt map2_same pct_of_def)
  have z: "map2 (\<lambda>r (t, p). \<lparr>name = name r, sex = sex r, count = count r, year = year r,
                                       pct = pct r, total_births = t, prop' = p\<rparr>)
             df (zip (map (total_of data) data) (map (pct_of data) data))
        = map (\<lambda>r. \<lparr>name = name r, sex = sex r, count = count r, year = year r,
                      pct = pct_of data r, total_births = total_of data r,
                      prop' = pct_of data r\<rparr>) data"
    unfolding df by (simp add: map2_zip_same)
  have "add_total_births_prop df =
      Inr (map2 (\<lambda>r (t, p). \<lparr>name = name r, sex = sex r, count = count r, year = year r,
                                       pct = pct r, total_births = t, prop' = p\<rparr>)
             df (zip (map (total_of data) data) (map (pct_of data) data)))"
    by (simp add: add_total_births_prop_def ts td)
  then show ?thesis by (simp only: z)
qed

text \<open>
  Claim C10. The columns \<^verbatim>\<open>pct\<close> (line 28) and \<^verbatim>\<open>prop\<close> (lines 35-36) are equal in
  every row of the enriched table: whenever line 28 succeeds, lines 35-36 succeed too, keep
  every row and its \<^verbatim>\<open>pct\<close>, and give it the same value as \<^verbatim>\<open>prop\<close>. The equality is
  the one of values, under which \<open>NaN\<close> in both columns counts as equal (the comparison
  \<^verbatim>\<open>==\<close> of floats would say otherwise of a \<open>NaN\<close>).
\<close>

theorem pct_equals_prop:
  "(add_pct data = Inr df \<longrightarrow>
      (\<exists>full. add_total_births_prop df = Inr full \<and> length full = length df
         \<and> map pct full = map pct df \<and> map prop' full = map pct df))
   \<and> (enriched_table z = Inr full' \<longrightarrow> list_all (\<lambda>r. prop' r = pct r) full')
   \<and> (load_name_data z = Inr df' \<longrightarrow> (\<exists>full. enriched_table z = Inr full))"
proof (intro conjI impI)
  assume a: "add_pct data = Inr df"
  then have df: "df = map (\<lambda>r. \<lparr>name = name r, sex = sex r, count = count r, year = year r,
                      pct = pct_of data r\<rparr>) data"
    by (simp add: add_pct_Inr)
  show "\<exists>full. add_total_births_prop df = Inr full \<and> length full = length df
         \<and> map pct full = map pct df \<and> map prop' full = map pct df"
    unfolding add_total_births_prop_Inr [OF a] by (simp add: df comp_def)
next
  assume e: "enriched_table z = Inr full'"
  then obtain df where l: "load_name_data z = Inr df" and f: "add_total_births_prop df = Inr full'"
    by (auto simp: enriched_table_def split: sum.splits)
  from l obtain data where "add_pct data = Inr df"
    by (auto simp: load_name_data_def split: sum.splits)
  from add_total_births_prop_Inr [OF this] f
  show "list_all (\<lambda>r. prop' r = pct r) full'"
    by (auto simp: list_all_iff)
next
  assume l: "load_name_data z = Inr df'"
  then obtain data where "add_pct data = Inr df'"
    by (auto simp: load_name_data_def split: sum.splits)
  from add_total_births_prop_Inr [OF this] l
  show "\<exists>full. enriched_table z = Inr full"
    by (simp add: enriched_table_def)
qed

text \<open>
  Claim C10 on an archive of two years, the second with a group of total zero: the two
  columns agree in every row, in the row with \<open>NaN\<close> too.
\<close>

theorem pct_equals_prop_witness:
  "enriched_table [(''yob1999.txt'', [[''Alice'', ''F'', ''100''], [''Beth'', ''F'', ''300'']]),
                   (''yob2000.txt'', [[''Bob'', ''M'', ''0'']])]
     = Inr [\<lparr>name = Some ''Alice'', sex = Some ''F'', count = CInt 100, year = 1999,
              pct = Fin (1 / 4), total_births = Fin 400, prop' = Fin (1 / 4)\<rparr>,
            \<lparr>name = Some ''Beth'', sex = Some ''F'', count = CInt 300, year = 1999,
              pct = Fin (3 / 4), total_births = Fin 400, prop' = Fin (3 / 4)\<rparr>,
            \<lparr>name = Some ''Bob'', sex = Some ''M'', count = CInt 0, year = 2000,
              pct = NaN, total_births = Fin 0, prop' = NaN\<rparr>]
   \<and> list_all (\<lambda>r. prop' r = pct r)
        [\<lparr>name = Some ''Alice'', sex = Some ''F'', count = CInt 100, year = 1999,
              pct = Fin (1 / 4), total_births = Fin 400, prop' = Fin (1 / 4)\<rparr>,
            \<lparr>name = Some ''Beth'', sex = Some ''F'', count = CInt 300, year = 1999,
              pct = Fin (3 / 4), total_births = Fin 400, prop' = Fin (3 / 4)\<rparr>,
            \<lparr>name = Some ''Bob'', sex = Some ''M'', count = CInt 0, year = 2000,
              pct = NaN, total_births = Fin 0, prop' = NaN\<rparr>]"
proof -
  let ?z = "[(''yob1999.txt'', [[''Alice'', ''F'', ''100''], [''Beth'', ''F'', ''300'']]),
                   (''yob2000.txt'', [[''Bob'', ''M'', ''0'']])]"
  let ?full = "[\<lparr>name = Some ''Alice'', sex = Some ''F'', count = CInt 100, year = 1999,
              pct = Fin (1 / 4), total_births = Fin 400, prop' = Fin (1 / 4)\<rparr>,
            \<lparr>name = Some ''Beth'', sex = Some ''F'', count = CInt 300, year = 1999,
              pct = Fin (3 / 4), total_births = Fin 400, prop' = Fin (3 / 4)\<rparr>,
            \<lparr>name = Some ''Bob'', sex = Some ''M'', count = CInt 0, year = 2000,
              pct = NaN, total_births = Fin 0, prop' = NaN\<rparr>]"
  have u: "unified_table ?z =
      Inr [\<lparr>name = Some ''Alice'', sex = Some ''F'', count = CInt 100, year = 1999\<rparr>,
           \<lparr>name = Some ''Beth'', sex = Some ''F'', count = CInt 300, year = 1999\<rparr>,
           \<lparr>name = Some ''Bob'', sex = Some ''M'', count = CInt 0, year = 2000\<rparr>]"
    by (simp add: eval_defs)
  have e: "enriched_table ?z = Inr ?full"
    using u
    by (simp add: enriched_table_def load_name_data_def add_pct_def add_total_births_prop_def
        transform_sum_def count_dtype_def group_counts_def group_sum_def wrap64_def)
  from pct_equals_prop [of _ _ ?z ?full] e
  have "list_all (\<lambda>r. prop' r = pct r) ?full" by blast
  with e show ?thesis by blast
qed

section \<open>Duplicate rows\<close>

lemma filter_add_full:
  "filter (in_group y s)
      (map (\<lambda>r. \<lparr>name = name r, sex = sex r, count = count r, year = year r,
                    pct = f r, total_births = g r, prop' = h r\<rparr>) data)
   = map (\<lambda>r. \<lparr>name = name r, sex = sex r, count = count r, year = year r,
                    pct = f r, total_births = g r, prop' = h r\<rparr>) (filter (in_group y s) data)"
  by (simp add: filter_map comp_def in_group_fun)

text \<open>
  Claim C6. Duplicate (name, sex, year) rows are kept and add up in the total of their
  group: in every table in which the F group of a year consists of exactly the rows
  Alice,F,60 and Alice,F,40, whatever the other groups hold, both rows are in the enriched
  table, with the proportions 3/5 and 2/5 (that is 0.6 and 0.4) of the total 100, in
  \<^verbatim>\<open>pct\<close> as in \<^verbatim>\<open>prop\<close>, and no row of the table is dropped.
\<close>

theorem duplicate_rows_are_additive:
  assumes "add_pct data = Inr df"
    and "filter (in_group y ''F'') data = [r1, r2]"
    and "name r1 = Some ''Alice''" and "count r1 = CInt 60"
    and "name r2 = Some ''Alice''" and "count r2 = CInt 40"
  shows "filter (in_group y ''F'') df =
           [\<lparr>name = Some ''Alice'', sex = Some ''F'', count = CInt 60, year = y, pct = Fin (3 / 5)\<rparr>,
            \<lparr>name = Some ''Alice'', sex = Some ''F'', count = CInt 40, year = y, pct = Fin (2 / 5)\<rparr>]
       \<and> (\<exists>full. add_total_births_prop df = Inr full \<and> length full = length data
            \<and> filter (in_group y ''F'') full =
               [\<lparr>name = Some ''Alice'', sex = Some ''F'', count = CInt 60, year = y,
                  pct = Fin (3 / 5), total_births = Fin 100, prop' = Fin (3 / 5)\<rparr>,
                \<lparr>name = Some ''Alice'', sex = Some ''F'', count = CInt 40, year = y,
                  pct = Fin (2 / 5), total_births = Fin 100, prop' = Fin (2 / 5)\<rparr>])"
proof -
  have "r1 \<in> set (filter (in_group y ''F'') data)" "r2 \<in> set (filter (in_group y ''F'') data)"
    by (simp_all add: assms(2))
  then have g1: "in_group y ''F'' r1" and g2: "in_group y ''F'' r2" by simp_all
  then have k: "year r1 = y" "sex r1 = Some ''F''" "year r2 = y" "sex r2 = Some ''F''"
    by (simp_all add: in_group_def)
  have "map count (filter (in_group y ''F'') data) = map CInt [60, 40]"
    by (simp add: assms)
  then have gc: "group_counts data y ''F'' = [60, 40]" by (rule group_counts_ints)
  have t: "\<And>r::raw_row. in_group y ''F'' r \<Longrightarrow> total_of data r = Fin 100"
    by (simp add: total_of_in_group gc group_sum_in_range)
  have p1: "pct_of data r1 = Fin (3 / 5)" and p2: "pct_of data r2 = Fin (2 / 5)"
    by (simp_all add: pct_of_def t g1 g2 assms)
  from assms(1) have df: "df = map (\<lambda>r. \<lparr>name = name r, sex = sex r, count = count r, year = year r,
                      pct = pct_of data r\<rparr>) data"
    by (simp add: add_pct_Inr)
  have first: "filter (in_group y ''F'') df =
           [\<lparr>name = Some ''Alice'', sex = Some ''F'', count = CInt 60, year = y, pct = Fin (3 / 5)\<rparr>,
            \<lparr>name = Some ''Alice'', sex = Some ''F'', count = CInt 40, year = y, pct = Fin (2 / 5)\<rparr>]"
    unfolding df filter_add_pct by (simp add: assms k p1 p2)
  have second: "filter (in_group y ''F'')
      (map (\<lambda>r. \<lparr>name = name r, sex = sex r, count = count r, year = year r,
                      pct = pct_of data r, total_births = total_of data r,
                      prop' = pct_of data r\<rparr>) data) =
               [\<lparr>name = Some ''Alice'', sex = Some ''F'', count = CInt 60, year = y,
                  pct = Fin (3 / 5), total_births = Fin 100, prop' = Fin (3 / 5)\<rparr>,
                \<lparr>name = Some ''Alice'', sex = Some ''F'', count = CInt 40, year = y,
                  pct = Fin (2 / 5), total_births = Fin 100, prop' = Fin (2 / 5)\<rparr>]"
    unfolding filter_add_full by (simp add: assms k p1 p2 t g1 g2)
  show ?thesis
    using first second add_total_births_prop_Inr [OF assms(1)] by simp
qed

text \<open>
  Claim C6 on the archive of the scenario, with a row of the M group between the two
  duplicates.
\<close>

theorem duplicate_rows_are_additive_witness:
  "unified_table [(''yob1999.txt'',
       [[''Alice'', ''F'', ''60''], [''Bob'', ''M'', ''50''], [''Alice'', ''F'', ''40'']])]
     = Inr [\<lparr>name = Some ''Alice'', sex = Some ''F'', count = CInt 60, year = 1999\<rparr>,
            \<lparr>name = Some ''Bob'', sex = Some ''M'', count = CInt 50, year = 1999\<rparr>,
            \<lparr>name = Some ''Alice'', sex = Some ''F'', count = CInt 40, year = 1999\<rparr>]
   \<and> enriched_table [(''yob1999.txt'',
       [[''Alice'', ''F'', ''60''], [''Bob'', ''M'', ''50''], [''Alice'', ''F'', ''40'']])]
     = Inr [\<lparr>name = Some ''Alice'', sex = Some ''F'', count = CInt 60, year = 1999,
              pct = Fin (3 / 5), total_births = Fin 100, prop' = Fin (3 / 5)\<rparr>,
            \<lparr>name = Some ''Bob'', sex = Some ''M'', count = CInt 50, year = 1999,
              pct = Fin 1, total_births = Fin 50, prop' = Fin 1\<rparr>,
            \<lparr>name = Some ''Alice'', sex = Some ''F'', count = CInt 40, year = 1999,
              pct = Fin (2 / 5), total_births = Fin 100, prop' = Fin (2 / 5)\<rparr>]
   \<and> filter (in_group 1999 ''F'')
        [\<lparr>name = Some ''Alice'', sex = Some ''F'', count = CInt 60, year = 1999, pct = Fin (3 / 5)\<rparr>,
         \<lparr>name = Some ''Bob'', sex = Some ''M'', count = CInt 50, year = 1999, pct = Fin 1\<rparr>,
         \<lparr>name = Some ''Alice'', sex = Some ''F'', count = CInt 40, year = 1999, pct = Fin (2 / 5)\<rparr>]
     = [\<lparr>name = Some ''Alice'', sex = Some ''F'', count = CInt 60, year = 1999, pct = Fin (3 / 5)\<rparr>,
        \<lparr>name = Some ''Alice'', sex = Some ''F'', count = CInt 40, year = 1999, pct = Fin (2 / 5)\<rparr>]"
proof -
  let ?z = "[(''yob1999.txt'',
       [[''Alice'', ''F'', ''60''], [''Bob'', ''M'', ''50''], [''Alice'', ''F'', ''40'']])]"
  let ?r1 = "\<lparr>name = Some ''Alice'', sex = Some ''F'', count = CInt 60, year = 1999\<rparr>"
  let ?r2 = "\<lparr>name = Some ''Alice'', sex = Some ''F'', count = CInt 40, year = 1999\<rparr>"
  let ?b = "\<lparr>name = Some ''Bob'', sex = Some ''M'', count = CInt 50, year = 1999\<rparr>"
  let ?df = "[\<lparr>name = Some ''Alice'', sex = Some ''F'', count = CInt 60, year = 1999, pct = Fin (3 / 5)\<rparr>,
         \<lparr>name = Some ''Bob'', sex = Some ''M'', count = CInt 50, year = 1999, pct = Fin 1\<rparr>,
         \<lparr>name = Some ''Alice'', sex = Some ''F'', count = CInt 40, year = 1999, pct = Fin (2 / 5)\<rparr>]"
  have u: "unified_table ?z = Inr [?r1, ?b, ?r2]"
    by (simp add: eval_defs)
  have a: "add_pct [?r1, ?b, ?r2] = Inr ?df"
    by (simp add: agg_defs)
  have g: "filter (in_group 1999 ''F'') [?r1, ?b, ?r2] = [?r1, ?r2]"
    by (simp add: in_group_def)
  have e: "enriched_table ?z
     = Inr [\<lparr>name = Some ''Alice'', sex = Some ''F'', count = CInt 60, year = 1999,
              pct = Fin (3 / 5), total_births = Fin 100, prop' = Fin (3 / 5)\<rparr>,
            \<lparr>name = Some ''Bob'', sex = Some ''M'', count = CInt 50, year = 1999,
              pct = Fin 1, total_births = Fin 50, prop' = Fin 1\<rparr>,
            \<lparr>name = Some ''Alice'', sex = Some ''F'', count = CInt 40, year = 1999,
              pct = Fin (2 / 5), total_births = Fin 100, prop' = Fin (2 / 5)\<rparr>]"
    using u a
    by (simp add: enriched_table_def load_name_data_def add_total_births_prop_def
        transform_sum_def count_dtype_def group_counts_def group_sum_def wrap64_def)
  from duplicate_rows_are_additive [OF a g]
  have "filter (in_group 1999 ''F'') ?df
     = [\<lparr>name = Some ''Alice'', sex = Some ''F'', count = CInt 60, year = 1999, pct = Fin (3 / 5)\<rparr>,
        \<lparr>name = Some ''Alice'', sex = Some ''F'', count = CInt 40, year = 1999, pct = Fin (2 / 5)\<rparr>]"
    by simp
  with u e show ?thesis by blast
qed

section \<open>The filter\<close>

text \<open>
  On a table with a name that is text the filter of lines 64-65 returns the rows that
  pass its two tests.
\<close>

lemma text_name_Some: "text_name r \<Longrightarrow> name r \<noteq> None"
  by (simp add: text_name_def split: option.splits)

lemma filtered_data_text:
  assumes "list_ex text_name df"
  shows "filtered_data df yr q =
           Inr (filter (\<lambda>r. between (year r) (fst yr) (snd yr) \<and> name_matches (name r) q) df)"
proof -
  from assms obtain r where r: "r \<in> set df" "text_name r" by (auto simp: list_ex_iff)
  from r(2) have "name r \<noteq> None" by (rule text_name_Some)
  with r(1) have "\<not> list_all (\<lambda>r. name r = None) df"
    by (auto simp: list_all_iff)
  then show ?thesis by (simp add: filtered_data_def)
qed

text \<open>
  Claim C7, as stated: on every enriched table, filtering by a name absent from the
  dataset returns an empty subset and raises nothing. It does not on the table of the
  archive below: both names are NA markers, so the name column holds no text, and the
  accessor \<^verbatim>\<open>.str\<close> of line 65 raises \<^verbatim>\<open>AttributeError\<close> for the absent name
  \<^verbatim>\<open>Zed\<close>.
\<close>

theorem names_column_without_text_counterexample:
  "enriched_table [(''yob1999.txt'', [[''NA'', ''F'', ''5''], [''null'', ''F'', ''15'']])]
     = Inr [\<lparr>name = None, sex = Some ''F'', count = CInt 5, year = 1999, pct = Fin (1 / 4),
              total_births = Fin 20, prop' = Fin (1 / 4)\<rparr>,
            \<lparr>name = None, sex = Some ''F'', count = CInt 15, year = 1999, pct = Fin (3 / 4),
              total_births = Fin 20, prop' = Fin (3 / 4)\<rparr>]
   \<and> filtered_data
        [\<lparr>name = None, sex = Some ''F'', count = CInt 5, year = 1999, pct = Fin (1 / 4),
           total_births = Fin 20, prop' = Fin (1 / 4)\<rparr>,
         \<lparr>name = None, sex = Some ''F'', count = CInt 15, year = 1999, pct = Fin (3 / 4),
           total_births = Fin 20, prop' = Fin (3 / 4)\<rparr>]
        (1900, 2000) ''Zed''
     = Inl AttributeError"
  by (simp add: enriched_table_def add_total_births_prop_def eval_defs agg_defs filtered_data_def)

text \<open>
  Claim C7, amended. For every enriched table whose name column holds at least one name
  that is text (\<open>text_name\<close>), filtering by a name that is absent from the table (no row
  has a name that equals the query when both are put in lower case, which is how lines
  64-65 compare), or by a year range that holds no year of the table (as a range fully
  outside the table's year span does), returns the empty subset and raises nothing; on
  the empty subset the script takes the branch of the warning.
\<close>

theorem filter_without_match_is_empty:
  assumes "list_ex text_name df"
  shows "((\<forall>r\<in>set df. \<forall>n. name r = Some n \<longrightarrow> lower n \<noteq> lower q) \<longrightarrow>
            filtered_data df year_range q = Inr [])
       \<and> ((\<forall>r\<in>set df. snd year_range < year r \<or> year r < fst year_range) \<longrightarrow>
            filtered_data df year_range q = Inr [])
       \<and> most_popular_year ([] :: 'a raw_row_scheme list) = None"
proof (intro conjI impI)
  assume a: "\<forall>r\<in>set df. \<forall>n. name r = Some n \<longrightarrow> lower n \<noteq> lower q"
  then have "\<forall>r\<in>set df. \<not> name_matches (name r) q"
    by (auto simp: name_matches_def split: option.splits)
  then show "filtered_data df year_range q = Inr []"
    by (simp add: filtered_data_text [OF assms] filter_empty_conv)
next
  assume a: "\<forall>r\<in>set df. snd year_range < year r \<or> year r < fst year_range"
  then have "\<forall>r\<in>set df. \<not> between (year r) (fst year_range) (snd year_range)"
    by (auto simp: between_def)
  then show "filtered_data df year_range q = Inr []"
    by (simp add: filtered_data_text [OF assms] filter_empty_conv)
next
  show "most_popular_year ([] :: 'a raw_row_scheme list) = None"
    by (simp add: most_popular_year_def)
qed

text \<open>
  The amended claim C7 on a table of two rows: a name that is absent, a range before
  every year, a range between the two years, and for comparison a query that does match.
\<close>

theorem filter_without_match_is_empty_witness:
  "list_ex text_name
      [\<lparr>name = Some ''Alice'', sex = Some ''F'', count = CInt 100, year = 1999\<rparr>,
       \<lparr>name = Some ''Bob'', sex = Some ''M'', count = CInt 50, year = 2001\<rparr>]
   \<and> filtered_data
      [\<lparr>name = Some ''Alice'', sex = Some ''F'', count = CInt 100, year = 1999\<rparr>,
       \<lparr>name = Some ''Bob'', sex = Some ''M'', count = CInt 50, year = 2001\<rparr>]
      (1900, 2000) ''Zed'' = Inr []
   \<and> filtered_data
      [\<lparr>name = Some ''Alice'', sex = Some ''F'', count = CInt 100, year = 1999\<rparr>,
       \<lparr>name = Some ''Bob'', sex = Some ''M'', count = CInt 50, year = 2001\<rparr>]
      (1800, 1850) ''alice'' = Inr []
   \<and> filtered_data
      [\<lparr>name = Some ''Alice'', sex = Some ''F'', count = CInt 100, year = 1999\<rparr>,
       \<lparr>name = Some ''Bob'', sex = Some ''M'', count = CInt 50, year = 2001\<rparr>]
      (2000, 2000) ''alice'' = Inr []
   \<and> filtered_data
      [\<lparr>name = Some ''Alice'', sex = Some ''F'', count = CInt 100, year = 1999\<rparr>,
       \<lparr>name = Some ''Bob'', sex = Some ''M'', count = CInt 50, year = 2001\<rparr>]
      (1900, 2000) ''alice''
     = Inr [\<lparr>name = Some ''Alice'', sex = Some ''F'', count = CInt 100, year = 1999\<rparr>]"
proof -
  let ?df = "[\<lparr>name = Some ''Alice'', sex = Some ''F'', count = CInt 100, year = 1999\<rparr>,
       \<lparr>name = Some ''Bob'', sex = Some ''M'', count = CInt 50, year = 2001\<rparr>]"
  have t: "list_ex text_name ?df"
    by (simp add: token_eval)
  have n: "\<forall>r\<in>set ?df. \<forall>n. name r = Some n \<longrightarrow> lower n \<noteq> lower ''Zed''"
    by (simp add: lower_def lower_char_def)
  have y: "\<forall>r\<in>set ?df. snd (1800 :: int, 1850 :: int) < year r \<or> year r < fst (1800 :: int, 1850 :: int)"
    by simp
  have y2: "\<forall>r\<in>set ?df. snd (2000 :: int, 2000 :: int) < year r \<or> year r < fst (2000 :: int, 2000 :: int)"
    by simp
  from filter_without_match_is_empty [OF t, of "''Zed''" "(1900, 2000)"] n
  have w1: "filtered_data ?df (1900, 2000) ''Zed'' = Inr []" by blast
  from filter_without_match_is_empty [OF t, of "''alice''" "(1800, 1850)"] y
  have w2: "filtered_data ?df (1800, 1850) ''alice'' = Inr []" by blast
  from filter_without_match_is_empty [OF t, of "''alice''" "(2000, 2000)"] y2
  have w2': "filtered_data ?df (2000, 2000) ''alice'' = Inr []" by blast
  have w3: "filtered_data ?df (1900, 2000) ''alice''
     = Inr [\<lparr>name = Some ''Alice'', sex = Some ''F'', count = CInt 100, year = 1999\<rparr>]"
    by (simp add: filter_eval)
  from t w1 w2 w2' w3 show ?thesis by blast
qed

section \<open>The most popular year\<close>







end
